theory Spec2Isabelle
  imports Main "HOL-Library.AList" "HOL-Library.Word"
begin

section \<open>Collaborative whiteboard server: rooms, lobby and session events\<close>

text \<open>
  A shallow embedding of \<^verbatim>\<open>server.js\<close>: the room table, the table of connected users, the
  fields the handlers attach to each socket, and one function per socket event handler.
  A handler takes the server state and returns the new state together with the messages
  it emits, in the order of the source.
\<close>

subsection \<open>JavaScript values\<close>

text \<open>
  Payload fields arrive as JSON values. A missing field reads as \<^verbatim>\<open>undefined\<close>. A number
  \<open>JNum n\<close> is the integer \<open>sint n\<close> of a 54-bit word, from \<open>- 2 ^ 53\<close> to \<open>2 ^ 53 - 1\<close>:
  the integers (slide indices, counters) that a double holds exactly and prints in plain
  decimal. The server does no arithmetic on numbers; it stores them, tests them for
  truthiness and prints them. Fractions and larger magnitudes are not represented.
\<close>

datatype jsval =
    JUndefined
  | JNull
  | JBool bool
  | JNum "54 word"
  | JStr string
  | JArr "jsval list"
  | JObj "(string \<times> jsval) list"

text \<open>Truthiness, as used by \<^verbatim>\<open>!x\<close>, \<^verbatim>\<open>x || y\<close> and \<^verbatim>\<open>if (x)\<close>.\<close>

fun js_truthy :: "jsval \<Rightarrow> bool" where
  "js_truthy JUndefined = False"
| "js_truthy JNull = False"
| "js_truthy (JBool b) = b"
| "js_truthy (JNum n) = (n \<noteq> 0)"
| "js_truthy (JStr s) = (s \<noteq> [])"
| "js_truthy (JArr xs) = True"
| "js_truthy (JObj kvs) = True"

text \<open>\<^verbatim>\<open>a || b\<close>\<close>

definition js_or :: "jsval \<Rightarrow> jsval \<Rightarrow> jsval" where
  "js_or a b = (if js_truthy a then a else b)"

text \<open>Decimal digits of a natural number, for the string conversion of numbers.\<close>

fun digits_of :: "nat \<Rightarrow> string" where
  "digits_of n =
     (if n < 10 then [''0123456789'' ! n]
      else digits_of (n div 10) @ [''0123456789'' ! (n mod 10)])"

declare digits_of.simps [simp del]

text \<open>Number to string, for the numbers of the model: the decimal digits, with a sign.\<close>

definition number_to_string :: "54 word \<Rightarrow> string" where
  "number_to_string n =
     (if sint n < 0 then CHR ''-'' # digits_of (nat (- sint n)) else digits_of (nat (sint n)))"

fun join_comma :: "string list \<Rightarrow> string" where
  "join_comma [] = []"
| "join_comma [x] = x"
| "join_comma (x # y # ys) = x @ '','' @ join_comma (y # ys)"

text \<open>What a handler can raise.\<close>

datatype error = TypeError

text \<open>
  The string conversion a template literal \<^verbatim>\<open>`${v}`\<close> applies; \<open>None\<close> is the
  \<^verbatim>\<open>TypeError\<close> it raises. A parsed JSON object has no callable property of its own, so
  an object with an own \<^verbatim>\<open>toString\<close> key hides \<^verbatim>\<open>Object.prototype.toString\<close> behind a
  value that cannot be called, \<^verbatim>\<open>valueOf\<close> gives back the object, and the conversion
  raises; any other object gives \<^verbatim>\<open>[object Object]\<close>. An array is the comma-joined
  conversion of its elements, where \<^verbatim>\<open>null\<close> and \<^verbatim>\<open>undefined\<close> elements give the empty
  string, and it raises when an element does.
\<close>

fun js_to_string :: "jsval \<Rightarrow> string option" where
  "js_to_string JUndefined = Some ''undefined''"
| "js_to_string JNull = Some ''null''"
| "js_to_string (JBool b) = Some (if b then ''true'' else ''false'')"
| "js_to_string (JNum n) = Some (number_to_string n)"
| "js_to_string (JStr s) = Some s"
| "js_to_string (JArr xs) =
     map_option join_comma
       (those (map (\<lambda>x. if x = JUndefined \<or> x = JNull then Some [] else js_to_string x) xs))"
| "js_to_string (JObj kvs) =
     (if ''toString'' \<in> fst ` set kvs then None else Some ''[object Object]'')"

text \<open>\<^verbatim>\<open>`slide_${index}`\<close>, the key of a per-slide drawing log; \<open>None\<close> when the
  conversion of the index raises.\<close>

definition slideKey :: "jsval \<Rightarrow> string option" where
  "slideKey idx = map_option (\<lambda>str. ''slide_'' @ str) (js_to_string idx)"

subsection \<open>Data model\<close>

type_synonym sid = string

datatype role = Host | Participant

text \<open>\<^verbatim>\<open>ROOM_STATES\<close>\<close>

datatype room_state = LOBBY | ACTIVE | ENDED

record participant =
  p_id :: sid
  p_username :: jsval
  p_role :: role
  p_ready :: jsval
  p_joinedAt :: int

record room_settings =
  hostCanClear :: bool
  hostCanMute :: bool
  participantsCanDraw :: bool
  participantsCanChat :: bool
  maxParticipants :: nat

text \<open>The payload of a \<^verbatim>\<open>drawing\<close> or \<^verbatim>\<open>text-added\<close> event: the two fields the server
  inspects, and the rest of the object, which it only copies.\<close>

record stroke =
  d_type :: jsval
  d_slideIndex :: jsval
  d_rest :: jsval

text \<open>\<^verbatim>\<open>{...data, userId, username, role, timestamp}\<close>\<close>

record drawing_data =
  dd_data :: stroke
  dd_userId :: sid
  dd_username :: jsval
  dd_role :: "role option"
  dd_timestamp :: int

text \<open>
  A room. \<^verbatim>\<open>participants\<close> is a JS \<^verbatim>\<open>Map\<close> whose iteration order (insertion order, an
  overwritten key keeping its place) shows in the participant lists that are sent out, so
  it is an association list handled with \<open>AList.update\<close> and \<open>AList.delete\<close>.
  \<^verbatim>\<open>slideDrawings\<close> is a \<^verbatim>\<open>Map\<close> from slide keys to logs that is never iterated.
\<close>

record room =
  r_id :: string
  host :: sid
  r_state :: room_state
  participants :: "(sid \<times> participant) list"
  drawings :: "drawing_data list"
  backgroundImage :: jsval
  slides :: jsval
  currentSlide :: jsval
  slideDrawings :: "string \<rightharpoonup> drawing_data list"
  settings :: room_settings
  createdAt :: int

text \<open>An entry of \<^verbatim>\<open>connectedUsers\<close>.\<close>

record user_info =
  u_roomId :: string
  u_username :: jsval
  u_role :: role

text \<open>
  The fields the handlers attach to a socket object (\<^verbatim>\<open>socket.roomId\<close>,
  \<^verbatim>\<open>socket.username\<close>, \<^verbatim>\<open>socket.role\<close>; unset until a room is created or joined) and
  the broadcast groups it entered with \<^verbatim>\<open>socket.join\<close>.
\<close>

record sock =
  s_roomId :: "string option"
  s_username :: jsval
  s_role :: "role option"
  s_joined :: "string set"

text \<open>
  The server: \<^verbatim>\<open>rooms\<close>, \<^verbatim>\<open>connectedUsers\<close>, and the sockets that are connected.
  \<open>uncaught\<close> is the exception that ended the process, if one did: \<^verbatim>\<open>server.js\<close> catches
  nothing outside \<^verbatim>\<open>create-room\<close> and registers no handler for uncaught exceptions, so an
  error raised in an event handler stops the handler where it is raised and ends the
  Node process. The tables then stay as the handler left them.
\<close>

record server =
  rooms :: "string \<rightharpoonup> room"
  connectedUsers :: "sid \<rightharpoonup> user_info"
  sockets :: "sid \<rightharpoonup> sock"
  uncaught :: "error option"

text \<open>
  The handlers log with template literals, as in \<^verbatim>\<open>console.log(`${socket.username} cleared
  background`)\<close>. Writing the line changes nothing, but the line is built first, and
  building it raises \<^verbatim>\<open>TypeError\<close> when an interpolated value does not convert to a
  string. \<open>logged vs res\<close> is a handler that has done \<open>res\<close> (its writes and its messages)
  and then logs a line built from the values \<open>vs\<close>. Lines built from socket ids and room ids
  alone, which are strings, always convert and are left out.
\<close>

definition converts :: "jsval \<Rightarrow> bool" where
  "converts v = (js_to_string v \<noteq> None)"

definition logged :: "jsval list \<Rightarrow> server \<times> 'a \<Rightarrow> server \<times> 'a" where
  "logged vs res =
     (if list_all converts vs then res
      else ((fst res)\<lparr> uncaught := Some TypeError \<rparr>, snd res))"

subsection \<open>Inbound payloads\<close>

text \<open>
  Every payload is an object, as the client sends it. Room ids are the strings the users
  type; \<open>None\<close> is a request without the field. Socket ids are strings.
\<close>

record room_request =
  q_roomId :: "string option"
  q_username :: jsval

record background =
  bg_imageData :: jsval
  bg_filename :: jsval
  bg_username :: jsval

record file_data =
  f_type :: jsval
  f_data :: jsval
  f_rest :: jsval

record presentation =
  pr_slides :: jsval
  pr_currentSlide :: jsval
  pr_filename :: jsval
  pr_username :: jsval

datatype event =
    CreateRoom room_request
  | JoinRoom room_request
  | ToggleReady jsval
  | StartSession
  | Drawing stroke
  | ChatMessage jsval
  | FileUploadStarted jsval
  | BackgroundImageSet background
  | BackgroundCleared jsval
  | FileShared file_data
  | PresentationShared presentation
  | SlideChanged jsval
  | SlideDrawingsCleared jsval
  | TextAdded stroke
  | ClearCanvas
  | ToggleParticipantDrawing
  | ToggleParticipantChat
  | KickParticipant sid
  | LeaveRoom
  | Disconnect

subsection \<open>Outbound messages\<close>

text \<open>
  \<open>ToSocket c\<close> is \<^verbatim>\<open>socket.emit\<close> on the socket \<open>c\<close>; \<open>ToRoom g\<close> is
  \<^verbatim>\<open>io.to(g).emit\<close>, to every socket of the group; \<open>ToOthers g c\<close> is
  \<^verbatim>\<open>socket.to(g).emit\<close> on the socket \<open>c\<close>, to every socket of the group but \<open>c\<close>.
\<close>

datatype target = ToSocket sid | ToRoom string | ToOthers string sid

text \<open>The payload of \<^verbatim>\<open>room-joined\<close>; the last four fields are set only for an active room.\<close>

record room_data =
  rd_roomId :: string
  rd_roomState :: room_state
  rd_participants :: "participant list"
  rd_slides :: jsval
  rd_currentSlide :: jsval
  rd_backgroundImage :: jsval
  rd_settings :: "room_settings option"

datatype message =
    MError string
  | MRoomExists
  | MRoomCreated string "participant list"
  | MRoomNotFound
  | MRoomFull
  | MRoomJoined room_data
  | MLobbyUpdated "participant list"
  | MSessionStarting
  | MDrawing drawing_data
  | MChatMessage jsval "role option" jsval int
  | MFileUploadStarted jsval sid
  | MBackgroundImageSet jsval jsval jsval
  | MBackgroundCleared jsval
  | MFileShared file_data jsval
  | MPresentationShared jsval jsval jsval jsval
  | MSlideChanged jsval
  | MSlideDrawingsCleared jsval
  | MTextAdded drawing_data
  | MClearCanvas jsval "role option"
  | MPermissionsUpdated room_settings jsval
  | MKicked jsval string
  | MRoomEnded string
  | MUserLeft jsval role
  | MParticipantLeftSession jsval role "participant list"

type_synonym out = "target \<times> message"

subsection \<open>Handlers\<close>

text \<open>\<^verbatim>\<open>if (!socket.roomId) return;\<close> : the room id a socket is bound to, if it has a
  non-empty one.\<close>

definition bound_room :: "sock \<Rightarrow> string option" where
  "bound_room sk =
     (case s_roomId sk of None \<Rightarrow> None | Some g \<Rightarrow> if g = [] then None else Some g)"

text \<open>\<^verbatim>\<open>Array.from(room.participants.values())\<close>\<close>

definition participant_list :: "room \<Rightarrow> participant list" where
  "participant_list r = map snd (participants r)"

text \<open>The room built by \<^verbatim>\<open>create-room\<close>, with the host already seated.\<close>

definition newRoom :: "int \<Rightarrow> sid \<Rightarrow> string \<Rightarrow> jsval \<Rightarrow> room" where
  "newRoom now c roomId username =
     \<lparr> r_id = roomId, host = c, r_state = LOBBY,
       participants = AList.update c
         \<lparr> p_id = c, p_username = username, p_role = Host, p_ready = JBool True,
           p_joinedAt = now \<rparr> [],
       drawings = [], backgroundImage = JNull, slides = JArr [], currentSlide = JNum 0,
       slideDrawings = Map.empty,
       settings = \<lparr> hostCanClear = True, hostCanMute = True, participantsCanDraw = True,
                    participantsCanChat = True, maxParticipants = 50 \<rparr>,
       createdAt = now \<rparr>"

text \<open>
  \<^verbatim>\<open>socket.on('create-room', ...)\<close>. The last statement but one of the \<^verbatim>\<open>try\<close> block
  logs a line built from the room id and the username. When the username does not convert
  to a string the block is left there, after the room is stored and the socket bound, and
  the \<^verbatim>\<open>catch\<close> branch answers with an error in place of \<^verbatim>\<open>room-created\<close>.
\<close>

definition on_create_room ::
  "int \<Rightarrow> sid \<Rightarrow> sock \<Rightarrow> room_request \<Rightarrow> server \<Rightarrow> server \<times> out list" where
  "on_create_room now c sk d s =
     (case q_roomId d of
        None \<Rightarrow> (s, [(ToSocket c, MError ''Invalid room data'')])
      | Some roomId \<Rightarrow>
          if roomId = [] \<or> \<not> js_truthy (q_username d)
          then (s, [(ToSocket c, MError ''Invalid room data'')])
          else if rooms s roomId \<noteq> None
          then (s, [(ToSocket c, MRoomExists)])
          else
            let r = newRoom now c roomId (q_username d) in
            (s\<lparr> rooms := (rooms s)(roomId \<mapsto> r),
                sockets := (sockets s)(c \<mapsto>
                  sk\<lparr> s_roomId := Some roomId, s_username := q_username d,
                      s_role := Some Host, s_joined := insert roomId (s_joined sk) \<rparr>),
                connectedUsers := (connectedUsers s)(c \<mapsto>
                  \<lparr> u_roomId = roomId, u_username = q_username d, u_role = Host \<rparr>) \<rparr>,
             [(ToSocket c,
               if converts (q_username d) then MRoomCreated roomId (participant_list r)
               else MError ''Failed to create room'')]))"

text \<open>\<^verbatim>\<open>rooms.get(roomId)\<close> for the id of a request: the id and the room it names, or
  nothing (\<^verbatim>\<open>undefined\<close>) when the request has no id or no room has it.\<close>

definition lookup_room :: "server \<Rightarrow> string option \<Rightarrow> (string \<times> room) option" where
  "lookup_room s q =
     (case q of
        None \<Rightarrow> None
      | Some g \<Rightarrow> (case rooms s g of None \<Rightarrow> None | Some r \<Rightarrow> Some (g, r)))"

text \<open>
  \<^verbatim>\<open>socket.on('join-room', ...)\<close>. The line \<^verbatim>\<open>`${username} joined room: ${roomId}`\<close> is
  logged after the participant is seated and the socket bound, and before anything is
  sent.
\<close>

definition on_join_room ::
  "int \<Rightarrow> sid \<Rightarrow> sock \<Rightarrow> room_request \<Rightarrow> server \<Rightarrow> server \<times> out list" where
  "on_join_room now c sk d s =
     (case lookup_room s (q_roomId d) of
        None \<Rightarrow> (s, [(ToSocket c, MRoomNotFound)])
      | Some (roomId, r) \<Rightarrow>
          if length (participants r) \<ge> maxParticipants (settings r)
          then (s, [(ToSocket c, MRoomFull)])
          else
            let r' = r\<lparr> participants := AList.update c
                         \<lparr> p_id = c, p_username = q_username d, p_role = Participant,
                           p_ready = JBool False, p_joinedAt = now \<rparr> (participants r) \<rparr>;
                active = (r_state r' = ACTIVE);
                roomData =
                  \<lparr> rd_roomId = roomId, rd_roomState = r_state r',
                    rd_participants = participant_list r',
                    rd_slides = (if active then slides r' else JUndefined),
                    rd_currentSlide = (if active then currentSlide r' else JUndefined),
                    rd_backgroundImage = (if active then backgroundImage r' else JUndefined),
                    rd_settings = (if active then Some (settings r') else None) \<rparr>;
                s' = s\<lparr> rooms := (rooms s)(roomId \<mapsto> r'),
                       sockets := (sockets s)(c \<mapsto>
                         sk\<lparr> s_roomId := Some roomId, s_username := q_username d,
                             s_role := Some Participant,
                             s_joined := insert roomId (s_joined sk) \<rparr>),
                       connectedUsers := (connectedUsers s)(c \<mapsto>
                         \<lparr> u_roomId = roomId, u_username = q_username d,
                           u_role = Participant \<rparr>) \<rparr>
            in
            if converts (q_username d)
            then (s', [(ToSocket c, MRoomJoined roomData),
                       (ToRoom roomId, MLobbyUpdated (participant_list r'))])
            else (s'\<lparr> uncaught := Some TypeError \<rparr>, []))"

text \<open>\<^verbatim>\<open>socket.on('toggle-ready', ...)\<close>; its last statement logs a line built from
  \<^verbatim>\<open>socket.username\<close>.\<close>

definition on_toggle_ready :: "sid \<Rightarrow> sock \<Rightarrow> jsval \<Rightarrow> server \<Rightarrow> server \<times> out list" where
  "on_toggle_ready c sk ready s =
     (case bound_room sk of
        None \<Rightarrow> (s, [])
      | Some g \<Rightarrow>
          if s_role sk \<noteq> Some Participant then (s, [])
          else
            (case rooms s g of
               None \<Rightarrow> (s, [])
             | Some r \<Rightarrow>
                 (case map_of (participants r) c of
                    None \<Rightarrow> (s, [])
                  | Some p \<Rightarrow>
                      let r' = r\<lparr> participants :=
                                   AList.update c (p\<lparr> p_ready := ready \<rparr>) (participants r) \<rparr>
                      in logged [s_username sk]
                           (s\<lparr> rooms := (rooms s)(g \<mapsto> r') \<rparr>,
                            [(ToRoom g, MLobbyUpdated (participant_list r'))]))))"

text \<open>
  \<^verbatim>\<open>socket.on('start-session', ...)\<close>. The handler also arms a one-second timer whose
  callback sends \<^verbatim>\<open>session-started\<close>; the callback writes no state, and the message it
  sends later is not part of this step.
\<close>

definition on_start_session :: "sid \<Rightarrow> sock \<Rightarrow> server \<Rightarrow> server \<times> out list" where
  "on_start_session c sk s =
     (case bound_room sk of
        None \<Rightarrow> (s, [])
      | Some g \<Rightarrow>
          if s_role sk \<noteq> Some Host then (s, [])
          else
            (case rooms s g of
               None \<Rightarrow> (s, [])
             | Some r \<Rightarrow>
                 if r_state r = LOBBY
                 then (s\<lparr> rooms := (rooms s)(g \<mapsto> r\<lparr> r_state := ACTIVE \<rparr>) \<rparr>,
                       [(ToRoom g, MSessionStarting)])
                 else (s, [])))"

text \<open>The per-slide logs after a drawing event: a log is created for the slide key when
  the event names a slide, and the record is pushed only for \<^verbatim>\<open>type === 'draw'\<close>. The key
  is computed first; \<open>None\<close> is the \<^verbatim>\<open>TypeError\<close> of its template literal.\<close>

definition store_slide_drawing ::
  "stroke \<Rightarrow> drawing_data \<Rightarrow> (string \<rightharpoonup> drawing_data list)
     \<Rightarrow> (string \<rightharpoonup> drawing_data list) option" where
  "store_slide_drawing d dd m =
     (if d_slideIndex d \<noteq> JUndefined
      then
        (case slideKey (d_slideIndex d) of
           None \<Rightarrow> None
         | Some k \<Rightarrow>
             let m1 = (if m k = None then m(k \<mapsto> []) else m)
             in Some (if d_type d = JStr ''draw''
                      then m1(k \<mapsto> (case m1 k of None \<Rightarrow> [] | Some l \<Rightarrow> l) @ [dd])
                      else m1))
      else Some m)"

text \<open>\<^verbatim>\<open>const drawingData = {...data, userId: socket.id, username: socket.username,
  role: socket.role, timestamp: Date.now()}\<close>\<close>

definition drawingData :: "int \<Rightarrow> sid \<Rightarrow> sock \<Rightarrow> stroke \<Rightarrow> drawing_data" where
  "drawingData now c sk d =
     \<lparr> dd_data = d, dd_userId = c, dd_username = s_username sk, dd_role = s_role sk,
       dd_timestamp = now \<rparr>"

text \<open>
  \<^verbatim>\<open>socket.on('drawing', ...)\<close>. The slide key is built before anything is stored or sent,
  so an index that does not convert to a string ends the handler with the state untouched.
\<close>

definition on_drawing :: "int \<Rightarrow> sid \<Rightarrow> sock \<Rightarrow> stroke \<Rightarrow> server \<Rightarrow> server \<times> out list" where
  "on_drawing now c sk d s =
     (case bound_room sk of
        None \<Rightarrow> (s, [])
      | Some g \<Rightarrow>
          (case rooms s g of
             None \<Rightarrow> (s, [])
           | Some r \<Rightarrow>
               if r_state r \<noteq> ACTIVE then (s, [])
               else
                 (case map_of (participants r) c of
                    None \<Rightarrow> (s, [])
                  | Some p \<Rightarrow>
                      if \<not> (p_role p = Host \<or> participantsCanDraw (settings r)) then (s, [])
                      else
                        let dd = drawingData now c sk d in
                        (case store_slide_drawing d dd (slideDrawings r) of
                           None \<Rightarrow> (s\<lparr> uncaught := Some TypeError \<rparr>, [])
                         | Some m \<Rightarrow>
                             let r' = r\<lparr> slideDrawings := m,
                                         drawings := (if d_type d = JStr ''draw''
                                                      then drawings r @ [dd] else drawings r) \<rparr>
                             in (s\<lparr> rooms := (rooms s)(g \<mapsto> r') \<rparr>,
                                 [(ToOthers g c, MDrawing dd)])))))"

text \<open>\<^verbatim>\<open>socket.on('chat-message', ...)\<close>\<close>

definition on_chat_message :: "int \<Rightarrow> sid \<Rightarrow> sock \<Rightarrow> jsval \<Rightarrow> server \<Rightarrow> server \<times> out list" where
  "on_chat_message now c sk message s =
     (case bound_room sk of
        None \<Rightarrow> (s, [])
      | Some g \<Rightarrow>
          (case rooms s g of
             None \<Rightarrow> (s, [])
           | Some r \<Rightarrow>
               (case map_of (participants r) c of
                  None \<Rightarrow> (s, [])
                | Some p \<Rightarrow>
                    if \<not> (p_role p = Host \<or> participantsCanChat (settings r)) then (s, [])
                    else (s, [(ToRoom g, MChatMessage (s_username sk) (s_role sk) message now)]))))"

text \<open>\<^verbatim>\<open>socket.on('file-upload-started', ...)\<close>\<close>

definition on_file_upload_started :: "sid \<Rightarrow> sock \<Rightarrow> jsval \<Rightarrow> server \<Rightarrow> server \<times> out list" where
  "on_file_upload_started c sk d s =
     (case bound_room sk of
        None \<Rightarrow> (s, [])
      | Some g \<Rightarrow> (s, [(ToOthers g c, MFileUploadStarted d c)]))"

text \<open>\<^verbatim>\<open>socket.on('background-image-set', ...)\<close>; its last statement logs a line built
  from \<^verbatim>\<open>socket.username\<close> and \<^verbatim>\<open>data.filename\<close>.\<close>

definition on_background_image_set ::
  "sid \<Rightarrow> sock \<Rightarrow> background \<Rightarrow> server \<Rightarrow> server \<times> out list" where
  "on_background_image_set c sk d s =
     (case bound_room sk of
        None \<Rightarrow> (s, [])
      | Some g \<Rightarrow>
          (case rooms s g of
             None \<Rightarrow> (s, [])
           | Some r \<Rightarrow>
               logged [s_username sk, bg_filename d]
                 (s\<lparr> rooms := (rooms s)(g \<mapsto>
                       r\<lparr> backgroundImage := bg_imageData d, slides := JArr [bg_imageData d],
                          currentSlide := JNum 0 \<rparr>) \<rparr>,
                  [(ToOthers g c,
                    MBackgroundImageSet (bg_imageData d) (bg_filename d) (bg_username d))])))"

text \<open>\<^verbatim>\<open>socket.on('background-cleared', ...)\<close>; its last statement logs a line built
  from \<^verbatim>\<open>socket.username\<close>.\<close>

definition on_background_cleared :: "sid \<Rightarrow> sock \<Rightarrow> jsval \<Rightarrow> server \<Rightarrow> server \<times> out list" where
  "on_background_cleared c sk username s =
     (case bound_room sk of
        None \<Rightarrow> (s, [])
      | Some g \<Rightarrow>
          (case rooms s g of
             None \<Rightarrow> (s, [])
           | Some r \<Rightarrow>
               logged [s_username sk]
                 (s\<lparr> rooms := (rooms s)(g \<mapsto>
                       r\<lparr> backgroundImage := JNull, slides := JArr [], currentSlide := JNum 0,
                          slideDrawings := Map.empty \<rparr>) \<rparr>,
                  [(ToOthers g c, MBackgroundCleared username)])))"

text \<open>\<^verbatim>\<open>socket.on('file-shared', ...)\<close>\<close>

definition on_file_shared :: "sid \<Rightarrow> sock \<Rightarrow> file_data \<Rightarrow> server \<Rightarrow> server \<times> out list" where
  "on_file_shared c sk d s =
     (case bound_room sk of
        None \<Rightarrow> (s, [])
      | Some g \<Rightarrow>
          (case rooms s g of
             None \<Rightarrow> (s, [])
           | Some r \<Rightarrow>
               let r' = (if f_type d = JStr ''image''
                         then r\<lparr> backgroundImage := f_data d, slides := JArr [f_data d],
                                 currentSlide := JNum 0 \<rparr>
                         else r)
               in (s\<lparr> rooms := (rooms s)(g \<mapsto> r') \<rparr>,
                   [(ToOthers g c, MFileShared d (s_username sk))])))"

text \<open>\<^verbatim>\<open>socket.on('presentation-shared', ...)\<close>; its last statement logs a line built
  from \<^verbatim>\<open>socket.username\<close> and \<^verbatim>\<open>data.filename\<close>.\<close>

definition on_presentation_shared ::
  "sid \<Rightarrow> sock \<Rightarrow> presentation \<Rightarrow> server \<Rightarrow> server \<times> out list" where
  "on_presentation_shared c sk d s =
     (case bound_room sk of
        None \<Rightarrow> (s, [])
      | Some g \<Rightarrow>
          (case rooms s g of
             None \<Rightarrow> (s, [])
           | Some r \<Rightarrow>
               let r' = r\<lparr> slides := pr_slides d,
                           currentSlide := js_or (pr_currentSlide d) (JNum 0),
                           slideDrawings := Map.empty \<rparr>
               in logged [s_username sk, pr_filename d]
                    (s\<lparr> rooms := (rooms s)(g \<mapsto> r') \<rparr>,
                     [(ToOthers g c,
                       MPresentationShared (pr_slides d) (pr_filename d) (currentSlide r')
                         (pr_username d))])))"

text \<open>\<^verbatim>\<open>socket.on('slide-changed', ...)\<close>\<close>

definition on_slide_changed :: "sid \<Rightarrow> sock \<Rightarrow> jsval \<Rightarrow> server \<Rightarrow> server \<times> out list" where
  "on_slide_changed c sk slideIndex s =
     (case bound_room sk of
        None \<Rightarrow> (s, [])
      | Some g \<Rightarrow>
          (case rooms s g of
             None \<Rightarrow> (s, [])
           | Some r \<Rightarrow>
               (s\<lparr> rooms := (rooms s)(g \<mapsto> r\<lparr> currentSlide := slideIndex \<rparr>) \<rparr>,
                [(ToOthers g c, MSlideChanged slideIndex)])))"

text \<open>\<^verbatim>\<open>socket.on('slide-drawings-cleared', ...)\<close>. The slide key is built first.\<close>

definition on_slide_drawings_cleared ::
  "sid \<Rightarrow> sock \<Rightarrow> jsval \<Rightarrow> server \<Rightarrow> server \<times> out list" where
  "on_slide_drawings_cleared c sk slideIndex s =
     (case bound_room sk of
        None \<Rightarrow> (s, [])
      | Some g \<Rightarrow>
          (case rooms s g of
             None \<Rightarrow> (s, [])
           | Some r \<Rightarrow>
               (case slideKey slideIndex of
                  None \<Rightarrow> (s\<lparr> uncaught := Some TypeError \<rparr>, [])
                | Some k \<Rightarrow>
                    (s\<lparr> rooms := (rooms s)(g \<mapsto>
                          r\<lparr> slideDrawings := (slideDrawings r)(k := None) \<rparr>) \<rparr>,
                     [(ToOthers g c, MSlideDrawingsCleared slideIndex)]))))"

text \<open>
  \<^verbatim>\<open>socket.on('text-added', ...)\<close>. The stored record is \<^verbatim>\<open>{type: 'text', ...textData}\<close>:
  the spread comes second, so a \<^verbatim>\<open>type\<close> field of the payload replaces \<^verbatim>\<open>'text'\<close>.
\<close>

definition on_text_added :: "int \<Rightarrow> sid \<Rightarrow> sock \<Rightarrow> stroke \<Rightarrow> server \<Rightarrow> server \<times> out list" where
  "on_text_added now c sk d s =
     (case bound_room sk of
        None \<Rightarrow> (s, [])
      | Some g \<Rightarrow>
          (case rooms s g of
             None \<Rightarrow> (s, [])
           | Some r \<Rightarrow>
               (case map_of (participants r) c of
                  None \<Rightarrow> (s, [])
                | Some p \<Rightarrow>
                    if \<not> (p_role p = Host \<or> participantsCanDraw (settings r)) then (s, [])
                    else
                      let textData = drawingData now c sk d;
                          stored = textData\<lparr> dd_data :=
                                     d\<lparr> d_type := (if d_type d = JUndefined then JStr ''text''
                                                    else d_type d) \<rparr> \<rparr>
                      in (s\<lparr> rooms := (rooms s)(g \<mapsto> r\<lparr> drawings := drawings r @ [stored] \<rparr>) \<rparr>,
                          [(ToOthers g c, MTextAdded textData)]))))"

text \<open>
  \<^verbatim>\<open>socket.on('clear-canvas', ...)\<close>. \<^verbatim>\<open>room.drawings = []\<close> comes before the slide key
  is built from the current slide index: when the index does not convert to a string, the
  flat log is already empty, no per-slide log is deleted and nothing is sent.
\<close>

definition on_clear_canvas :: "sid \<Rightarrow> sock \<Rightarrow> server \<Rightarrow> server \<times> out list" where
  "on_clear_canvas c sk s =
     (case bound_room sk of
        None \<Rightarrow> (s, [])
      | Some g \<Rightarrow>
          (case rooms s g of
             None \<Rightarrow> (s, [])
           | Some r \<Rightarrow>
               if s_role sk = Some Host \<or> \<not> hostCanClear (settings r)
               then
                 (case slideKey (currentSlide r) of
                    None \<Rightarrow>
                      (s\<lparr> rooms := (rooms s)(g \<mapsto> r\<lparr> drawings := [] \<rparr>),
                          uncaught := Some TypeError \<rparr>, [])
                  | Some k \<Rightarrow>
                      (s\<lparr> rooms := (rooms s)(g \<mapsto>
                            r\<lparr> drawings := [],
                               slideDrawings := (slideDrawings r)(k := None) \<rparr>) \<rparr>,
                       [(ToRoom g, MClearCanvas (s_username sk) (s_role sk))]))
               else (s, [])))"

text \<open>\<^verbatim>\<open>socket.on('toggle-participant-drawing', ...)\<close>; its last statement logs a line
  built from \<^verbatim>\<open>socket.username\<close>.\<close>

definition on_toggle_participant_drawing :: "sid \<Rightarrow> sock \<Rightarrow> server \<Rightarrow> server \<times> out list" where
  "on_toggle_participant_drawing c sk s =
     (case bound_room sk of
        None \<Rightarrow> (s, [])
      | Some g \<Rightarrow>
          if s_role sk \<noteq> Some Host then (s, [])
          else
            (case rooms s g of
               None \<Rightarrow> (s, [])
             | Some r \<Rightarrow>
                 let st = (settings r)\<lparr> participantsCanDraw :=
                                          \<not> participantsCanDraw (settings r) \<rparr>
                 in logged [s_username sk]
                      (s\<lparr> rooms := (rooms s)(g \<mapsto> r\<lparr> settings := st \<rparr>) \<rparr>,
                       [(ToRoom g, MPermissionsUpdated st (s_username sk))])))"

text \<open>\<^verbatim>\<open>socket.on('toggle-participant-chat', ...)\<close>; its last statement logs a line
  built from \<^verbatim>\<open>socket.username\<close>.\<close>

definition on_toggle_participant_chat :: "sid \<Rightarrow> sock \<Rightarrow> server \<Rightarrow> server \<times> out list" where
  "on_toggle_participant_chat c sk s =
     (case bound_room sk of
        None \<Rightarrow> (s, [])
      | Some g \<Rightarrow>
          if s_role sk \<noteq> Some Host then (s, [])
          else
            (case rooms s g of
               None \<Rightarrow> (s, [])
             | Some r \<Rightarrow>
                 let st = (settings r)\<lparr> participantsCanChat :=
                                          \<not> participantsCanChat (settings r) \<rparr>
                 in logged [s_username sk]
                      (s\<lparr> rooms := (rooms s)(g \<mapsto> r\<lparr> settings := st \<rparr>) \<rparr>,
                       [(ToRoom g, MPermissionsUpdated st (s_username sk))])))"

text \<open>
  \<^verbatim>\<open>function leaveRoom(socket)\<close>. The participant is removed from the room object first;
  the room is then dropped from the table when the leaver's socket has role host, and
  again when the directory has become empty.
\<close>

definition leaveRoom :: "sid \<Rightarrow> sock \<Rightarrow> server \<Rightarrow> server \<times> out list" where
  "leaveRoom c sk s =
     (case connectedUsers s c of
        None \<Rightarrow> (s, [])
      | Some userInfo \<Rightarrow>
          (case rooms s (u_roomId userInfo) of
             None \<Rightarrow> (s\<lparr> connectedUsers := (connectedUsers s)(c := None) \<rparr>, [])
           | Some r \<Rightarrow>
               let g = u_roomId userInfo;
                   r' = r\<lparr> participants := AList.delete c (participants r) \<rparr>;
                   rooms1 = (if s_role sk = Some Host then (rooms s)(g := None)
                             else (rooms s)(g \<mapsto> r'));
                   outs =
                     (if s_role sk = Some Host
                      then [(ToRoom g, MRoomEnded ''Host left the room'')]
                      else
                        [(ToOthers g c, MLobbyUpdated (participant_list r')),
                         (if r_state r' = ACTIVE
                          then (ToOthers g c,
                                MParticipantLeftSession (u_username userInfo) (u_role userInfo)
                                  (participant_list r'))
                          else (ToOthers g c,
                                MUserLeft (u_username userInfo) (u_role userInfo)))]);
                   rooms2 = (if length (participants r') = 0 then rooms1(g := None) else rooms1)
               in (s\<lparr> rooms := rooms2, connectedUsers := (connectedUsers s)(c := None) \<rparr>,
                   outs)))"

text \<open>
  \<^verbatim>\<open>socket.on('disconnect', ...)\<close>: \<^verbatim>\<open>leaveRoom\<close>, after which the socket object is gone
  from the server's sockets.
\<close>

definition on_disconnect :: "sid \<Rightarrow> sock \<Rightarrow> server \<Rightarrow> server \<times> out list" where
  "on_disconnect c sk s =
     (let (s1, outs) = leaveRoom c sk s
      in (s1\<lparr> sockets := (sockets s1)(c := None) \<rparr>, outs))"

text \<open>
  \<^verbatim>\<open>socket.on('kick-participant', ...)\<close>. \<^verbatim>\<open>targetSocket.disconnect()\<close> runs the target's
  \<^verbatim>\<open>disconnect\<close> handler before it returns.
\<close>

definition on_kick_participant :: "sid \<Rightarrow> sock \<Rightarrow> sid \<Rightarrow> server \<Rightarrow> server \<times> out list" where
  "on_kick_participant c sk targetUserId s =
     (case bound_room sk of
        None \<Rightarrow> (s, [])
      | Some g \<Rightarrow>
          if s_role sk \<noteq> Some Host then (s, [])
          else
            (case sockets s targetUserId of
               None \<Rightarrow> (s, [])
             | Some targetSocket \<Rightarrow>
                 if s_roomId targetSocket = s_roomId sk
                 then
                   let (s1, outs) = on_disconnect targetUserId targetSocket s
                   in (s1, (ToSocket targetUserId, MKicked (s_username sk) ''Removed by host'')
                           # outs)
                 else (s, [])))"

subsection \<open>The server as a transition system\<close>

text \<open>The handler of each event, run on the socket \<open>c\<close> with its fields \<open>sk\<close>; \<open>now\<close> is
  what \<^verbatim>\<open>Date.now()\<close> returns during the call.\<close>

fun handle :: "int \<Rightarrow> sid \<Rightarrow> sock \<Rightarrow> event \<Rightarrow> server \<Rightarrow> server \<times> out list" where
  "handle now c sk (CreateRoom d) s = on_create_room now c sk d s"
| "handle now c sk (JoinRoom d) s = on_join_room now c sk d s"
| "handle now c sk (ToggleReady v) s = on_toggle_ready c sk v s"
| "handle now c sk StartSession s = on_start_session c sk s"
| "handle now c sk (Drawing d) s = on_drawing now c sk d s"
| "handle now c sk (ChatMessage v) s = on_chat_message now c sk v s"
| "handle now c sk (FileUploadStarted v) s = on_file_upload_started c sk v s"
| "handle now c sk (BackgroundImageSet d) s = on_background_image_set c sk d s"
| "handle now c sk (BackgroundCleared v) s = on_background_cleared c sk v s"
| "handle now c sk (FileShared d) s = on_file_shared c sk d s"
| "handle now c sk (PresentationShared d) s = on_presentation_shared c sk d s"
| "handle now c sk (SlideChanged v) s = on_slide_changed c sk v s"
| "handle now c sk (SlideDrawingsCleared v) s = on_slide_drawings_cleared c sk v s"
| "handle now c sk (TextAdded d) s = on_text_added now c sk d s"
| "handle now c sk ClearCanvas s = on_clear_canvas c sk s"
| "handle now c sk ToggleParticipantDrawing s = on_toggle_participant_drawing c sk s"
| "handle now c sk ToggleParticipantChat s = on_toggle_participant_chat c sk s"
| "handle now c sk (KickParticipant t) s = on_kick_participant c sk t s"
| "handle now c sk LeaveRoom s = leaveRoom c sk s"
| "handle now c sk Disconnect s = on_disconnect c sk s"

text \<open>\<^verbatim>\<open>ROOM_TIMEOUT\<close>, 24 hours in milliseconds.\<close>

definition ROOM_TIMEOUT :: int where
  "ROOM_TIMEOUT = 24 * 60 * 60 * 1000"

text \<open>The hourly sweep: every room that is older than the timeout and has no participant
  is deleted.\<close>

definition cleanup_rooms :: "int \<Rightarrow> server \<Rightarrow> server" where
  "cleanup_rooms now s =
     s\<lparr> rooms := (\<lambda>g. case rooms s g of
                         None \<Rightarrow> None
                       | Some r \<Rightarrow>
                           if now - createdAt r > ROOM_TIMEOUT \<and> length (participants r) = 0
                           then None else Some r) \<rparr>"

text \<open>
  What the server reacts to: a new connection (a socket with none of the fields set), an
  event from a connected socket, and the sweep timer. An event names its socket; a socket
  that is not connected sends nothing. A process that an uncaught exception has ended
  reacts to nothing.
\<close>

datatype input = Connection sid | FromSocket sid event | CleanupTick

definition new_socket :: sock where
  "new_socket = \<lparr> s_roomId = None, s_username = JUndefined, s_role = None, s_joined = {} \<rparr>"

fun react :: "int \<Rightarrow> input \<Rightarrow> server \<Rightarrow> server \<times> out list" where
  "react now (Connection c) s =
     (if sockets s c = None then (s\<lparr> sockets := (sockets s)(c \<mapsto> new_socket) \<rparr>, [])
      else (s, []))"
| "react now (FromSocket c e) s =
     (case sockets s c of None \<Rightarrow> (s, []) | Some sk \<Rightarrow> handle now c sk e s)"
| "react now CleanupTick s = (cleanup_rooms now s, [])"

definition step :: "int \<Rightarrow> input \<Rightarrow> server \<Rightarrow> server \<times> out list" where
  "step now i s = (if uncaught s = None then react now i s else (s, []))"

definition init :: server where
  "init = \<lparr> rooms = Map.empty, connectedUsers = Map.empty, sockets = Map.empty,
            uncaught = None \<rparr>"

text \<open>Running a sequence of timed inputs from a state; the messages are collected in order.\<close>

fun run :: "server \<Rightarrow> (int \<times> input) list \<Rightarrow> server \<times> out list" where
  "run s [] = (s, [])"
| "run s ((now, i) # is) =
     (let r1 = step now i s; r2 = run (fst r1) is in (fst r2, snd r1 @ snd r2))"

text \<open>The states the server can be in.\<close>

inductive reachable :: "server \<Rightarrow> bool" where
  reachable_init: "reachable init"
| reachable_step: "reachable s \<Longrightarrow> reachable (fst (step now i s))"

subsection \<open>Observations used in the properties\<close>

text \<open>The content of the per-slide drawing log with key \<open>k\<close>: empty when the room has no
  log under that key.\<close>

definition slide_log :: "room \<Rightarrow> string \<Rightarrow> drawing_data list" where
  "slide_log r k = (case slideDrawings r k of None \<Rightarrow> [] | Some l \<Rightarrow> l)"


subsection \<open>Example runs\<close>

text \<open>Alice (socket \<open>a\<close>) creates room R1 and Bob (socket \<open>b\<close>) joins it: a lobby with a
  host and one participant.\<close>

definition lobby_inputs :: "(int \<times> input) list" where
  "lobby_inputs =
     [(0, Connection ''a''),
      (1, FromSocket ''a'' (CreateRoom \<lparr> q_roomId = Some ''R1'', q_username = JStr ''Alice'' \<rparr>)),
      (2, Connection ''b''),
      (3, FromSocket ''b'' (JoinRoom \<lparr> q_roomId = Some ''R1'', q_username = JStr ''Bob'' \<rparr>))]"

definition lobby_state :: server where
  "lobby_state = fst (run init lobby_inputs)"

text \<open>The socket fields of Alice and Bob in that lobby.\<close>

definition alice_sock :: sock where
  "alice_sock = \<lparr> s_roomId = Some ''R1'', s_username = JStr ''Alice'', s_role = Some Host,
                  s_joined = {''R1''} \<rparr>"

definition bob_sock :: sock where
  "bob_sock = \<lparr> s_roomId = Some ''R1'', s_username = JStr ''Bob'', s_role = Some Participant,
                s_joined = {''R1''} \<rparr>"

text \<open>A room filled to the cap by a run: Alice creates R1, then guests connect and join
  one after the other; the socket id of the \<open>n\<close>-th guest is \<open>n\<close> letters g.\<close>

definition guest :: "nat \<Rightarrow> sid" where
  "guest n = replicate n (CHR ''g'')"

definition guest_inputs :: "nat \<Rightarrow> (int \<times> input) list" where
  "guest_inputs n =
     [(int n, Connection (guest n)),
      (int n, FromSocket (guest n)
                (JoinRoom \<lparr> q_roomId = Some ''R1'', q_username = JStr ''guest'' \<rparr>))]"

primrec crowd :: "nat \<Rightarrow> server" where
  "crowd 0 =
     fst (run init
       [(0, Connection ''a''),
        (0, FromSocket ''a'' (CreateRoom \<lparr> q_roomId = Some ''R1'', q_username = JStr ''Alice'' \<rparr>))])"
| "crowd (Suc n) = fst (run (crowd n) (guest_inputs (Suc n)))"

text \<open>The lobby after Alice starts the session, and the lobby after Bob sends
  \<^verbatim>\<open>leave-room\<close> (his socket stays connected and keeps its fields).\<close>

definition active_state :: server where
  "active_state = fst (step 4 (FromSocket ''a'' StartSession) lobby_state)"

definition left_state :: server where
  "left_state = fst (step 4 (FromSocket ''b'' LeaveRoom) lobby_state)"


text \<open>A stroke Bob draws on slide 0 of the active session, the same stroke announced as
  started, and the session after the stroke was drawn.\<close>

definition bob_stroke :: stroke where
  "bob_stroke = \<lparr> d_type = JStr ''draw'', d_slideIndex = JNum 0,
                  d_rest = JObj [(''x'', JNum 3), (''y'', JNum 4)] \<rparr>"


definition drawn_state :: server where
  "drawn_state = fst (step 5 (FromSocket ''b'' (Drawing bob_stroke)) active_state)"

text \<open>The JSON value \<^verbatim>\<open>{"toString": 1}\<close>, which does not convert to a string, Bob's stroke
  on a slide with that index, and the session after Alice has turned to that slide.\<close>

definition no_string :: jsval where
  "no_string = JObj [(''toString'', JNum 1)]"


definition stuck_state :: server where
  "stuck_state = fst (step 6 (FromSocket ''a'' (SlideChanged no_string)) drawn_state)"

text \<open>A presentation of three slides opened on its last slide, and a background image.\<close>

definition deck3 :: presentation where
  "deck3 = \<lparr> pr_slides = JArr [JStr ''s0'', JStr ''s1'', JStr ''s2''], pr_currentSlide = JNum 2,
             pr_filename = JStr ''talk.pdf'', pr_username = JStr ''Alice'' \<rparr>"

definition picture :: background where
  "picture = \<lparr> bg_imageData = JStr ''img'', bg_filename = JStr ''a.png'',
               bg_username = JStr ''Alice'' \<rparr>"

text \<open>An image shared as a file.\<close>

definition image_file :: file_data where
  "image_file = \<lparr> f_type = JStr ''image'', f_data = JStr ''img2'', f_rest = JObj [] \<rparr>"

text \<open>The index \<open>idx\<close> is valid for the deck: the deck is an array and the index a number, a
  position of the array, or 0 when the array is empty.\<close>

definition slide_index_ok :: "jsval \<Rightarrow> jsval \<Rightarrow> bool" where
  "slide_index_ok deck idx =
     (case deck of
        JArr xs \<Rightarrow>
          (case idx of
             JNum i \<Rightarrow>
               (if xs = [] then i = 0 else 0 \<le> sint i \<and> sint i < int (length xs))
           | _ \<Rightarrow> False)
      | _ \<Rightarrow> False)"

text \<open>Every room's current slide index is valid for its deck.\<close>

definition slide_inv :: "server \<Rightarrow> bool" where
  "slide_inv s = (\<forall>g r. rooms s g = Some r \<longrightarrow> slide_index_ok (slides r) (currentSlide r))"

text \<open>
  An input whose slide index can be taken as it is: a \<^verbatim>\<open>slide-changed\<close> event whose index
  is valid for the deck of the room its sender is bound to, and a \<^verbatim>\<open>presentation-shared\<close>
  event whose slides are an array and whose \<^verbatim>\<open>currentSlide\<close> (0 when missing or falsy) is
  valid for it. Every other input qualifies.
\<close>

fun slide_payload_ok :: "server \<Rightarrow> input \<Rightarrow> bool" where
  "slide_payload_ok s (FromSocket c (SlideChanged v)) =
     (case sockets s c of
        None \<Rightarrow> True
      | Some sk \<Rightarrow>
          (case bound_room sk of
             None \<Rightarrow> True
           | Some g \<Rightarrow>
               (case rooms s g of None \<Rightarrow> True | Some r \<Rightarrow> slide_index_ok (slides r) v)))"
| "slide_payload_ok s (FromSocket c (PresentationShared d)) =
     slide_index_ok (pr_slides d) (js_or (pr_currentSlide d) (JNum 0))"
| "slide_payload_ok s i = True"

text \<open>The states the server reaches through such inputs.\<close>

inductive reachable_valid :: "server \<Rightarrow> bool" where
  reachable_valid_init: "reachable_valid init"
| reachable_valid_step:
    "reachable_valid s \<Longrightarrow> slide_payload_ok s i \<Longrightarrow> reachable_valid (fst (step now i s))"

text \<open>Alice shares the three-slide presentation in the lobby, then Bob turns to slide 1;
  or else Alice turns to slide 5 of the empty deck.\<close>

definition deck_state :: server where
  "deck_state = fst (step 4 (FromSocket ''a'' (PresentationShared deck3)) lobby_state)"

definition turned_state :: server where
  "turned_state = fst (step 5 (FromSocket ''b'' (SlideChanged (JNum 1))) deck_state)"

definition stray_state :: server where
  "stray_state = fst (step 4 (FromSocket ''a'' (SlideChanged (JNum 5))) lobby_state)"

text \<open>The deck and the current slide index of a room, and the steps that leave them as
  they are in every room that exists afterwards.\<close>

definition slide_view :: "room \<Rightarrow> jsval \<times> jsval" where
  "slide_view r = (slides r, currentSlide r)"

definition slides_kept :: "server \<Rightarrow> server \<Rightarrow> bool" where
  "slides_kept s s' =
     (\<forall>g r'. rooms s' g = Some r' \<longrightarrow> (\<exists>r. rooms s g = Some r \<and> slide_view r' = slide_view r))"

text \<open>The number of participants of a room whose role is host.\<close>

definition host_count :: "room \<Rightarrow> nat" where
  "host_count r = length (filter (\<lambda>p. p_role p = Host) (participant_list r))"

text \<open>The input is a \<^verbatim>\<open>join-room\<close> request for room \<open>g\<close> from socket \<open>c\<close>.\<close>

fun is_join :: "sid \<Rightarrow> string \<Rightarrow> input \<Rightarrow> bool" where
  "is_join c g (FromSocket c' (JoinRoom d)) = (c' = c \<and> q_roomId d = Some g)"
| "is_join c g i = False"

text \<open>The directory entries of Alice and Bob in the lobby of R1, and a request to create
  a room R2.\<close>

definition alice_seat :: participant where
  "alice_seat = \<lparr> p_id = ''a'', p_username = JStr ''Alice'', p_role = Host,
                   p_ready = JBool True, p_joinedAt = 1 \<rparr>"

definition bob_seat :: participant where
  "bob_seat = \<lparr> p_id = ''b'', p_username = JStr ''Bob'', p_role = Participant,
                 p_ready = JBool False, p_joinedAt = 3 \<rparr>"

definition request_R2 :: room_request where
  "request_R2 = \<lparr> q_roomId = Some ''R2'', q_username = JStr ''Bob'' \<rparr>"

text \<open>Alice, the host of R1, sends \<^verbatim>\<open>join-room\<close> for her own room.\<close>

definition rejoin_state :: server where
  "rejoin_state =
     fst (step 4 (FromSocket ''a'' (JoinRoom \<lparr> q_roomId = Some ''R1'', q_username = JStr ''Alice'' \<rparr>))
            lobby_state)"

text \<open>
  A well-formed directory: no socket id is seated twice, and an entry with role host is
  the entry of the room's creator and is ready.
\<close>

definition room_ok :: "room \<Rightarrow> bool" where
  "room_ok r =
     (distinct (map fst (participants r)) \<and>
      (\<forall>k p. (k, p) \<in> set (participants r) \<and> p_role p = Host \<longrightarrow>
             k = host r \<and> p_ready p = JBool True))"

text \<open>
  The bookkeeping of sockets: a socket with an entry in \<^verbatim>\<open>connectedUsers\<close> is connected and
  carries the same room id and role on its socket object; and a socket whose role is
  participant is not seated as host in the room it is bound to.
\<close>

definition sockets_ok :: "server \<Rightarrow> bool" where
  "sockets_ok s =
     ((\<forall>c u. connectedUsers s c = Some u \<longrightarrow>
           (\<exists>sk. sockets s c = Some sk \<and> s_roomId sk = Some (u_roomId u)
                \<and> s_role sk = Some (u_role u)))
      \<and> (\<forall>c sk g r p. sockets s c = Some sk \<and> s_roomId sk = Some g
             \<and> s_role sk = Some Participant \<and> rooms s g = Some r
             \<and> map_of (participants r) c = Some p \<longrightarrow> p_role p = Participant))"

text \<open>Both together, for every room of the table.\<close>

definition dir_inv :: "server \<Rightarrow> bool" where
  "dir_inv s = ((\<forall>g r. rooms s g = Some r \<longrightarrow> room_ok r) \<and> sockets_ok s)"

text \<open>Steps that leave the sockets, the connected users, and the creator and directory of
  every room that exists afterwards as they are.\<close>

definition dir_kept :: "server \<Rightarrow> server \<Rightarrow> bool" where
  "dir_kept s s' =
     (sockets s' = sockets s \<and> connectedUsers s' = connectedUsers s \<and>
      (\<forall>g r'. rooms s' g = Some r' \<longrightarrow>
         (\<exists>r. rooms s g = Some r \<and> participants r' = participants r \<and> host r' = host r)))"

text \<open>Alice, the host of R1, creates a second room R2 from the same socket, and then
  disconnects.\<close>

definition alice_request_R2 :: room_request where
  "alice_request_R2 = \<lparr> q_roomId = Some ''R2'', q_username = JStr ''Alice'' \<rparr>"

definition moved_state :: server where
  "moved_state = fst (step 4 (FromSocket ''a'' (CreateRoom alice_request_R2)) lobby_state)"

definition gone_state :: server where
  "gone_state = fst (step 5 (FromSocket ''a'' Disconnect) moved_state)"

section \<open>Properties\<close>

subsection \<open>Evaluating the example runs\<close>

lemma logged_simps [simp]:
  "rooms (fst (logged vs res)) = rooms (fst res)"
  "sockets (fst (logged vs res)) = sockets (fst res)"
  "connectedUsers (fst (logged vs res)) = connectedUsers (fst res)"
  "snd (logged vs res) = snd res"
  "uncaught (fst (logged vs res)) =
     (if list_all converts vs then uncaught (fst res) else Some TypeError)"
  by (simp_all add: logged_def)

lemma logged_fst: "\<exists>e. fst (logged vs (a, b)) = a\<lparr> uncaught := e \<rparr>"
  by (cases "list_all converts vs") (auto simp: logged_def intro: exI[of _ "uncaught a"])

lemma converts_simps [simp]:
  "converts (JStr str)" "converts JUndefined" "converts JNull" "converts (JBool b)"
  "converts (JNum n)"
  by (simp_all add: converts_def)

lemma logged_strings [simp]:
  "logged [JStr x] res = res" "logged [JStr x, JStr y] res = res"
  by (simp_all add: logged_def)

lemma step_alive [simp]: "uncaught s = None \<Longrightarrow> step now i s = react now i s"
  by (simp add: step_def)

lemma step_ended [simp]: "uncaught s = Some e \<Longrightarrow> step now i s = (s, [])"
  by (simp add: step_def)

lemmas example_defs =
  lobby_inputs_def on_create_room_def on_join_room_def lookup_room_def newRoom_def
  participant_list_def bound_room_def new_socket_def init_def Let_def

lemma init_alive [simp]: "uncaught init = None"
  by (simp add: init_def)

lemma lobby_alive [simp]: "uncaught lobby_state = None"
  by (simp add: lobby_state_def example_defs)

lemma lobby_room:
  "rooms lobby_state ''R1'' =
     Some ((newRoom 1 ''a'' ''R1'' (JStr ''Alice''))
             \<lparr> participants :=
                 [(''a'', \<lparr> p_id = ''a'', p_username = JStr ''Alice'', p_role = Host,
                            p_ready = JBool True, p_joinedAt = 1 \<rparr>),
                  (''b'', \<lparr> p_id = ''b'', p_username = JStr ''Bob'', p_role = Participant,
                            p_ready = JBool False, p_joinedAt = 3 \<rparr>)] \<rparr>)"
  by (simp add: lobby_state_def example_defs)

lemma lobby_rooms_other: "g \<noteq> ''R1'' \<Longrightarrow> rooms lobby_state g = None"
  by (simp add: lobby_state_def example_defs)

lemma lobby_sockets:
  "sockets lobby_state ''a'' = Some alice_sock" "sockets lobby_state ''b'' = Some bob_sock"
  by (simp_all add: lobby_state_def alice_sock_def bob_sock_def example_defs)

lemma lobby_connectedUsers:
  "connectedUsers lobby_state ''a'' =
     Some \<lparr> u_roomId = ''R1'', u_username = JStr ''Alice'', u_role = Host \<rparr>"
  "connectedUsers lobby_state ''b'' =
     Some \<lparr> u_roomId = ''R1'', u_username = JStr ''Bob'', u_role = Participant \<rparr>"
  by (simp_all add: lobby_state_def example_defs)

lemma bound_alice_bob [simp]:
  "bound_room alice_sock = Some ''R1''" "bound_room bob_sock = Some ''R1''"
  by (simp_all add: bound_room_def alice_sock_def bob_sock_def)

lemma fst_run_Cons: "fst (run s ((now, i) # is)) = fst (run (fst (step now i s)) is)"
  by (simp add: Let_def)

lemma reachable_run: "reachable s \<Longrightarrow> reachable (fst (run s is))"
proof (induction "is" arbitrary: s)
  case Nil
  then show ?case by simp
next
  case (Cons a "is")
  obtain now i where a: "a = (now, i)" by (cases a)
  have "reachable (fst (step now i s))" using Cons.prems by (rule reachable_step)
  from Cons.IH[OF this] show ?case unfolding a fst_run_Cons .
qed

lemma reachable_lobby: "reachable lobby_state"
  unfolding lobby_state_def by (rule reachable_run[OF reachable_init])

lemma sock_fields [simp]:
  "s_role alice_sock = Some Host" "s_role bob_sock = Some Participant"
  "s_roomId alice_sock = Some ''R1''" "s_roomId bob_sock = Some ''R1''"
  "s_username alice_sock = JStr ''Alice''" "s_username bob_sock = JStr ''Bob''"
  by (simp_all add: alice_sock_def bob_sock_def)



lemma active_room:
  "rooms active_state ''R1'' =
     Some ((newRoom 1 ''a'' ''R1'' (JStr ''Alice''))
             \<lparr> r_state := ACTIVE, participants :=
                 [(''a'', \<lparr> p_id = ''a'', p_username = JStr ''Alice'', p_role = Host,
                            p_ready = JBool True, p_joinedAt = 1 \<rparr>),
                  (''b'', \<lparr> p_id = ''b'', p_username = JStr ''Bob'', p_role = Participant,
                            p_ready = JBool False, p_joinedAt = 3 \<rparr>)] \<rparr>)"
  by (simp add: active_state_def lobby_sockets on_start_session_def lobby_room newRoom_def)

lemma active_sockets:
  "sockets active_state ''a'' = Some alice_sock" "sockets active_state ''b'' = Some bob_sock"
  by (simp_all add: active_state_def lobby_sockets on_start_session_def lobby_room)

lemma left_room:
  "rooms left_state ''R1'' =
     Some ((newRoom 1 ''a'' ''R1'' (JStr ''Alice''))
             \<lparr> participants :=
                 [(''a'', \<lparr> p_id = ''a'', p_username = JStr ''Alice'', p_role = Host,
                            p_ready = JBool True, p_joinedAt = 1 \<rparr>)] \<rparr>)"
  by (simp add: left_state_def lobby_sockets leaveRoom_def lobby_connectedUsers lobby_room
      Let_def)


subsection \<open>Room creation and joining\<close>

text \<open>
  C6, as the code has it. The room table is a map, so an id names at most one room. A
  create-room request whose id names a live room leaves the state as it is (no second
  room; the existing room and the table unchanged) and is answered to the sender only:
  with \<^verbatim>\<open>room-exists\<close> when the request carries a display name, and with the
  invalid-request error when it carries none, since the handler checks the fields of the
  request before it looks the id up.
\<close>

theorem create_room_existing_id:
  "rooms s roomId = Some r \<Longrightarrow> q_roomId d = Some roomId \<Longrightarrow>
   on_create_room now c sk d s =
     (s, [(ToSocket c, if roomId \<noteq> [] \<and> js_truthy (q_username d) then MRoomExists
                       else MError ''Invalid room data'')])"
  by (simp add: on_create_room_def)

theorem create_room_existing_id_witness:
  "rooms lobby_state ''R1'' \<noteq> None
   \<and> on_create_room 5 ''b'' bob_sock \<lparr> q_roomId = Some ''R1'', q_username = JStr ''Bob'' \<rparr>
        lobby_state = (lobby_state, [(ToSocket ''b'', MRoomExists)])"
  using create_room_existing_id[OF lobby_room,
      where d = "\<lparr> q_roomId = Some ''R1'', q_username = JStr ''Bob'' \<rparr>"
        and now = 5 and c = "''b''" and sk = bob_sock]
  by (simp add: lobby_room)

text \<open>
  C6 as stated fails: Bob asks to create the live room R1 without a display name, and
  the answer is the invalid-request error, not \<^verbatim>\<open>room-exists\<close>.
\<close>

theorem create_room_collision_without_name:
  "sockets lobby_state ''b'' = Some bob_sock
   \<and> map_option r_id (rooms lobby_state ''R1'') = Some ''R1''
   \<and> step 5 (FromSocket ''b'' (CreateRoom \<lparr> q_roomId = Some ''R1'', q_username = JStr [] \<rparr>))
        lobby_state = (lobby_state, [(ToSocket ''b'', MError ''Invalid room data'')])"
  by (simp add: lobby_sockets lobby_room on_create_room_def newRoom_def)


text \<open>
  C7. A join-room request for a room whose directory has reached the cap is answered with
  \<^verbatim>\<open>room-full\<close>, to the sender only, and a request that names no room or an unknown
  room with \<^verbatim>\<open>room-not-found\<close>; in both cases the state after the handler is the state
  before it, so the directory does not grow and nothing is mutated.
\<close>

theorem join_room_rejected:
  "(\<forall>g r. q_roomId d = Some g \<and> rooms s g = Some r \<and>
           maxParticipants (settings r) \<le> length (participants r)
           \<longrightarrow> on_join_room now c sk d s = (s, [(ToSocket c, MRoomFull)]))
   \<and> (q_roomId d = None \<or> (\<exists>g. q_roomId d = Some g \<and> rooms s g = None)
        \<longrightarrow> on_join_room now c sk d s = (s, [(ToSocket c, MRoomNotFound)]))"
  by (auto simp: on_join_room_def lookup_room_def)

text \<open>The run that fills R1: after the \<open>n\<close>-th guest the directory holds Alice and the
  guests 1 to \<open>n\<close>, in that order.\<close>

lemma reachable_crowd: "reachable (crowd n)"
  by (induction n) (simp_all add: reachable_run reachable_init del: run.simps)

lemma connection_step:
  "rooms (fst (react now (Connection c) s)) = rooms s"
  "sockets (fst (react now (Connection c) s)) c \<noteq> None"
  "uncaught (fst (react now (Connection c) s)) = uncaught s"
  by auto

lemma join_alive:
  "converts (q_username d) \<Longrightarrow> uncaught (fst (on_join_room now c sk d s)) = uncaught s"
  by (simp add: on_join_room_def lookup_room_def Let_def split: option.splits)

lemma join_seats:
  assumes "sockets s c = Some sk" and "rooms s g = Some r"
    and "length (participants r) < maxParticipants (settings r)"
  shows "\<exists>r'. rooms (fst (on_join_room now c sk \<lparr> q_roomId = Some g, q_username = u \<rparr> s)) g
               = Some r'
            \<and> map fst (participants r') =
                (if c \<in> set (map fst (participants r)) then map fst (participants r)
                 else map fst (participants r) @ [c])
            \<and> settings r' = settings r"
  using assms by (simp add: on_join_room_def lookup_room_def Let_def AList.update_keys)

lemma guest_inj: "guest i = guest j \<Longrightarrow> i = j"
  by (drule arg_cong[of _ _ length]) (simp add: guest_def)

lemma guest_fresh: "guest (Suc n) \<notin> set (''a'' # map guest [1..<Suc n])"
proof -
  have "guest (Suc n) \<noteq> ''a''" by (simp add: guest_def)
  moreover have "guest (Suc n) \<notin> guest ` {1..<Suc n}"
    using guest_inj by fastforce
  ultimately show ?thesis by (simp only: set_simps set_map set_upt insert_iff) blast
qed

lemma crowd_room:
  "n < 50 \<Longrightarrow>
   uncaught (crowd n) = None
   \<and> (\<exists>r. rooms (crowd n) ''R1'' = Some r
         \<and> map fst (participants r) = ''a'' # map guest [1..<Suc n]
         \<and> maxParticipants (settings r) = 50)"
proof (induction n)
  case 0
  show ?case by (simp add: example_defs)
next
  case (Suc n)
  then obtain r where r: "rooms (crowd n) ''R1'' = Some r"
    "map fst (participants r) = ''a'' # map guest [1..<Suc n]"
    "maxParticipants (settings r) = 50" and alive: "uncaught (crowd n) = None" by auto
  let ?s1 = "fst (react (int (Suc n)) (Connection (guest (Suc n))) (crowd n))"
  obtain sk where sk: "sockets ?s1 (guest (Suc n)) = Some sk"
    using connection_step(2)[of "int (Suc n)" "guest (Suc n)" "crowd n"] by auto
  have r1: "rooms ?s1 ''R1'' = Some r" using r(1) by (simp only: connection_step(1))
  have alive1: "uncaught ?s1 = None" using alive by (simp only: connection_step(3))
  have "length (participants r) = Suc n"
    using arg_cong[OF r(2), of length] by simp
  with Suc.prems r(3) have room: "length (participants r) < maxParticipants (settings r)"
    by simp
  from join_seats[OF sk r1 room, of "int (Suc n)" "JStr ''guest''"] guest_fresh[of n] r(2,3)
  obtain r' where "rooms (fst (on_join_room (int (Suc n)) (guest (Suc n)) sk
        \<lparr> q_roomId = Some ''R1'', q_username = JStr ''guest'' \<rparr> ?s1)) ''R1'' = Some r'"
    "map fst (participants r') = ''a'' # map guest [1..<Suc (Suc n)]"
    "maxParticipants (settings r') = 50"
    by auto
  moreover have "crowd (Suc n) = fst (on_join_room (int (Suc n)) (guest (Suc n)) sk
        \<lparr> q_roomId = Some ''R1'', q_username = JStr ''guest'' \<rparr> ?s1)"
    using sk alive alive1 by (simp add: guest_inputs_def Let_def del: react.simps(1))
  moreover have "uncaught (fst (on_join_room (int (Suc n)) (guest (Suc n)) sk
        \<lparr> q_roomId = Some ''R1'', q_username = JStr ''guest'' \<rparr> ?s1)) = None"
    using alive1 by (simp add: join_alive)
  ultimately show ?case by auto
qed

lemma crowd_full:
  "\<exists>r. rooms (crowd 49) ''R1'' = Some r \<and> length (participants r) = 50
      \<and> maxParticipants (settings r) = 50"
proof -
  from crowd_room[of 49] obtain r where r: "rooms (crowd 49) ''R1'' = Some r"
    "map fst (participants r) = ''a'' # map guest [1..<Suc 49]"
    "maxParticipants (settings r) = 50" by auto
  from arg_cong[OF r(2), of length] have "length (participants r) = 50" by simp
  with r show ?thesis by auto
qed

theorem join_room_rejected_witness:
  "reachable (crowd 49)
   \<and> map_option (\<lambda>r. (length (participants r), maxParticipants (settings r)))
        (rooms (crowd 49) ''R1'') = Some (50, 50)
   \<and> on_join_room 50 ''z'' new_socket \<lparr> q_roomId = Some ''R1'', q_username = JStr ''Zed'' \<rparr>
        (crowd 49) = (crowd 49, [(ToSocket ''z'', MRoomFull)])
   \<and> rooms lobby_state ''R2'' = None
   \<and> on_join_room 50 ''z'' new_socket \<lparr> q_roomId = Some ''R2'', q_username = JStr ''Zed'' \<rparr>
        lobby_state = (lobby_state, [(ToSocket ''z'', MRoomNotFound)])"
proof -
  from crowd_full obtain r where r: "rooms (crowd 49) ''R1'' = Some r"
    "length (participants r) = 50" "maxParticipants (settings r) = 50" by auto
  have none: "rooms lobby_state ''R2'' = None" by (simp add: lobby_rooms_other)
  have full: "on_join_room 50 ''z'' new_socket
                \<lparr> q_roomId = Some ''R1'', q_username = JStr ''Zed'' \<rparr> (crowd 49)
              = (crowd 49, [(ToSocket ''z'', MRoomFull)])"
    using join_room_rejected[where d = "\<lparr> q_roomId = Some ''R1'', q_username = JStr ''Zed'' \<rparr>"
        and s = "crowd 49" and now = 50 and c = "''z''" and sk = new_socket] r
    by auto
  have unknown: "on_join_room 50 ''z'' new_socket
                \<lparr> q_roomId = Some ''R2'', q_username = JStr ''Zed'' \<rparr> lobby_state
              = (lobby_state, [(ToSocket ''z'', MRoomNotFound)])"
    using join_room_rejected[where d = "\<lparr> q_roomId = Some ''R2'', q_username = JStr ''Zed'' \<rparr>"
        and s = lobby_state and now = 50 and c = "''z''" and sk = new_socket] none
    by auto
  from reachable_crowd[of 49] r none full unknown show ?thesis by simp
qed

subsection \<open>The example session\<close>

lemma left_alive [simp]: "uncaught left_state = None"
  by (simp add: left_state_def lobby_sockets leaveRoom_def lobby_connectedUsers lobby_room
      Let_def)

lemma active_alive [simp]: "uncaught active_state = None"
  by (simp add: active_state_def lobby_sockets on_start_session_def lobby_room)

lemma slideKey_0: "slideKey (JNum 0) = Some ''slide_0''"
  by (simp add: slideKey_def number_to_string_def digits_of.simps[of 0])


lemma drawn_room:
  "rooms drawn_state ''R1'' =
     Some ((newRoom 1 ''a'' ''R1'' (JStr ''Alice''))
             \<lparr> r_state := ACTIVE, participants :=
                 [(''a'', \<lparr> p_id = ''a'', p_username = JStr ''Alice'', p_role = Host,
                            p_ready = JBool True, p_joinedAt = 1 \<rparr>),
                  (''b'', \<lparr> p_id = ''b'', p_username = JStr ''Bob'', p_role = Participant,
                            p_ready = JBool False, p_joinedAt = 3 \<rparr>)],
               drawings := [drawingData 5 ''b'' bob_sock bob_stroke],
               slideDrawings := [''slide_0'' \<mapsto> [drawingData 5 ''b'' bob_sock bob_stroke]] \<rparr>)"
  by (simp add: drawn_state_def active_sockets active_room on_drawing_def newRoom_def
      store_slide_drawing_def bob_stroke_def slideKey_0 Let_def)

lemma drawn_sockets:
  "sockets drawn_state ''a'' = Some alice_sock" "sockets drawn_state ''b'' = Some bob_sock"
  by (simp_all add: drawn_state_def active_sockets active_room on_drawing_def newRoom_def
      store_slide_drawing_def bob_stroke_def slideKey_0 Let_def)

lemma drawn_alive [simp]: "uncaught drawn_state = None"
  by (simp add: drawn_state_def active_sockets active_room on_drawing_def newRoom_def
      store_slide_drawing_def bob_stroke_def slideKey_0 Let_def)





lemma stuck_alive [simp]: "uncaught stuck_state = None"
  by (simp add: stuck_state_def drawn_sockets drawn_room on_slide_changed_def)

subsection \<open>Slide keys of numeric indices\<close>







subsection \<open>Clearing the canvas\<close>







subsection \<open>Drawing events\<close>






subsection \<open>Background, presentation and slide events\<close>




text \<open>
  C1, as the code has it. For a socket bound to a live room: after
  \<^verbatim>\<open>background-image-set\<close>, and after \<^verbatim>\<open>file-shared\<close> with type \<^verbatim>\<open>image\<close>, the
  current slide index is 0 and the deck is the one new image; after
  \<^verbatim>\<open>presentation-shared\<close> the deck is the payload's, every per-slide drawing log is gone,
  and the current slide index is the payload's \<^verbatim>\<open>currentSlide\<close> when that is truthy and
  0 otherwise.
\<close>

theorem replacement_events_reset:
  assumes "bound_room sk = Some g" and "rooms s g = Some r"
  shows "(\<exists>r'. rooms (fst (on_background_image_set c sk bg s)) g = Some r'
            \<and> currentSlide r' = JNum 0 \<and> slides r' = JArr [bg_imageData bg]
            \<and> backgroundImage r' = bg_imageData bg)
       \<and> (f_type fd = JStr ''image'' \<longrightarrow>
           (\<exists>r'. rooms (fst (on_file_shared c sk fd s)) g = Some r'
              \<and> currentSlide r' = JNum 0 \<and> slides r' = JArr [f_data fd]
              \<and> backgroundImage r' = f_data fd))
       \<and> (\<exists>r'. rooms (fst (on_presentation_shared c sk pd s)) g = Some r'
            \<and> slides r' = pr_slides pd
            \<and> currentSlide r' =
                (if js_truthy (pr_currentSlide pd) then pr_currentSlide pd else JNum 0)
            \<and> slideDrawings r' = Map.empty)"
  using assms
  by (simp add: on_background_image_set_def on_file_shared_def on_presentation_shared_def
      js_or_def Let_def)

theorem replacement_events_reset_witness:
  "bound_room alice_sock = Some ''R1''
   \<and> f_type image_file = JStr ''image''
   \<and> map_option (\<lambda>r. (currentSlide r, slides r))
        (rooms (fst (on_background_image_set ''a'' alice_sock picture drawn_state)) ''R1'')
       = Some (JNum 0, JArr [JStr ''img''])
   \<and> map_option (\<lambda>r. (currentSlide r, slides r))
        (rooms (fst (on_file_shared ''a'' alice_sock image_file drawn_state)) ''R1'')
       = Some (JNum 0, JArr [JStr ''img2''])
   \<and> map_option (\<lambda>r. (currentSlide r, slide_log r ''slide_0''))
        (rooms (fst (on_presentation_shared ''a'' alice_sock
                      (deck3\<lparr> pr_currentSlide := JUndefined \<rparr>) drawn_state)) ''R1'')
       = Some (JNum 0, [])"
  using replacement_events_reset[OF bound_alice_bob(1) drawn_room,
      where c = "''a''" and bg = picture and fd = image_file
        and pd = "deck3\<lparr> pr_currentSlide := JUndefined \<rparr>"]
  by (auto simp: picture_def image_file_def deck3_def slide_log_def)

text \<open>
  C1 as stated fails. Alice shares a presentation opened on its third slide, and the
  current slide index is 2, not 0. And after Bob has drawn on slide 0, Alice sets a
  background image, and the log of slide 0 still holds Bob's stroke.
\<close>

theorem replacement_events_counterexample:
  "map_option currentSlide
     (rooms (fst (step 4 (FromSocket ''a'' (PresentationShared deck3)) lobby_state)) ''R1'')
     = Some (JNum 2)
   \<and> map_option (\<lambda>r. slide_log r ''slide_0'')
       (rooms (fst (step 6 (FromSocket ''a'' (BackgroundImageSet picture)) drawn_state)) ''R1'')
     = Some [drawingData 5 ''b'' bob_sock bob_stroke]"
  by (simp add: lobby_sockets lobby_room drawn_sockets drawn_room on_presentation_shared_def
      on_background_image_set_def deck3_def js_or_def slide_log_def newRoom_def)

subsection \<open>The current slide index\<close>

lemma slides_kept_refl [simp]: "slides_kept s s"
  by (simp add: slides_kept_def)

lemma slides_kept_inv: "slides_kept s s' \<Longrightarrow> slide_inv s \<Longrightarrow> slide_inv s'"
  by (fastforce simp: slides_kept_def slide_inv_def slide_view_def)

lemma kept_join: "slides_kept s (fst (on_join_room now c sk d s))"
  by (auto simp: slides_kept_def slide_view_def on_join_room_def lookup_room_def Let_def
      split: option.splits if_splits)

lemma kept_toggle_ready: "slides_kept s (fst (on_toggle_ready c sk v s))"
  by (auto simp: slides_kept_def slide_view_def on_toggle_ready_def Let_def
      split: option.splits if_splits)

lemma kept_start: "slides_kept s (fst (on_start_session c sk s))"
  by (auto simp: slides_kept_def slide_view_def on_start_session_def Let_def
      split: option.splits if_splits)

lemma kept_drawing: "slides_kept s (fst (on_drawing now c sk d s))"
  by (auto simp: slides_kept_def slide_view_def on_drawing_def Let_def
      split: option.splits if_splits)

lemma kept_chat: "slides_kept s (fst (on_chat_message now c sk v s))"
  by (auto simp: slides_kept_def slide_view_def on_chat_message_def Let_def
      split: option.splits if_splits)

lemma kept_upload: "slides_kept s (fst (on_file_upload_started c sk v s))"
  by (auto simp: slides_kept_def slide_view_def on_file_upload_started_def Let_def
      split: option.splits if_splits)

lemma kept_slide_drawings_cleared: "slides_kept s (fst (on_slide_drawings_cleared c sk v s))"
  by (auto simp: slides_kept_def slide_view_def on_slide_drawings_cleared_def Let_def
      split: option.splits if_splits)

lemma kept_text: "slides_kept s (fst (on_text_added now c sk d s))"
  by (auto simp: slides_kept_def slide_view_def on_text_added_def Let_def
      split: option.splits if_splits)

lemma kept_clear: "slides_kept s (fst (on_clear_canvas c sk s))"
  by (auto simp: slides_kept_def slide_view_def on_clear_canvas_def Let_def
      split: option.splits if_splits)

lemma kept_toggle_drawing: "slides_kept s (fst (on_toggle_participant_drawing c sk s))"
  by (auto simp: slides_kept_def slide_view_def on_toggle_participant_drawing_def Let_def
      split: option.splits if_splits)

lemma kept_toggle_chat: "slides_kept s (fst (on_toggle_participant_chat c sk s))"
  by (auto simp: slides_kept_def slide_view_def on_toggle_participant_chat_def Let_def
      split: option.splits if_splits)

lemma kept_leave: "slides_kept s (fst (leaveRoom c sk s))"
  by (auto simp: slides_kept_def slide_view_def leaveRoom_def Let_def
      split: option.splits if_splits)

lemma kept_disconnect: "slides_kept s (fst (on_disconnect c sk s))"
  using kept_leave[of s c sk]
  by (simp add: on_disconnect_def slides_kept_def split: prod.splits)

lemma kick_cases:
  "fst (on_kick_participant c sk t s) = s
   \<or> (\<exists>tsk. sockets s t = Some tsk \<and> fst (on_kick_participant c sk t s) = fst (on_disconnect t tsk s))"
  by (auto simp: on_kick_participant_def split: option.splits prod.splits)

lemma kept_kick: "slides_kept s (fst (on_kick_participant c sk t s))"
  using kick_cases[of c sk t s] kept_disconnect[of s t] by auto

lemma kept_cleanup: "slides_kept s (cleanup_rooms now s)"
  by (auto simp: slides_kept_def cleanup_rooms_def split: option.splits if_splits)

lemma slide_index_ok_simps [simp]:
  "slide_index_ok (JArr []) (JNum 0)" "slide_index_ok (JArr [x]) (JNum 0)"
  by (simp_all add: slide_index_ok_def)

lemma inv_create: "slide_inv s \<Longrightarrow> slide_inv (fst (on_create_room now c sk d s))"
  by (auto simp: slide_inv_def on_create_room_def newRoom_def Let_def
      split: option.splits if_splits)

lemma inv_background_image_set:
  "slide_inv s \<Longrightarrow> slide_inv (fst (on_background_image_set c sk d s))"
  by (auto simp: slide_inv_def on_background_image_set_def
      split: option.splits if_splits)

lemma inv_background_cleared:
  "slide_inv s \<Longrightarrow> slide_inv (fst (on_background_cleared c sk v s))"
  by (auto simp: slide_inv_def on_background_cleared_def
      split: option.splits if_splits)

lemma inv_file_shared: "slide_inv s \<Longrightarrow> slide_inv (fst (on_file_shared c sk d s))"
  by (auto simp: slide_inv_def on_file_shared_def Let_def
      split: option.splits if_splits)

lemma inv_presentation_shared:
  "slide_inv s \<Longrightarrow> slide_index_ok (pr_slides d) (js_or (pr_currentSlide d) (JNum 0)) \<Longrightarrow>
   slide_inv (fst (on_presentation_shared c sk d s))"
  by (auto simp: slide_inv_def on_presentation_shared_def Let_def
      split: option.splits if_splits)

lemma inv_slide_changed:
  "slide_inv s \<Longrightarrow> slide_payload_ok s (FromSocket c (SlideChanged v)) \<Longrightarrow>
   sockets s c = Some sk \<Longrightarrow> slide_inv (fst (on_slide_changed c sk v s))"
  by (auto simp: slide_inv_def on_slide_changed_def Let_def
      split: option.splits if_splits)

lemma inv_handle:
  assumes "slide_inv s" and "slide_payload_ok s (FromSocket c e)" and "sockets s c = Some sk"
  shows "slide_inv (fst (handle now c sk e s))"
proof (cases e)
  case (CreateRoom d) then show ?thesis using assms by (simp add: inv_create)
next
  case (JoinRoom d) then show ?thesis using assms slides_kept_inv[OF kept_join] by simp
next
  case (ToggleReady v) then show ?thesis using assms slides_kept_inv[OF kept_toggle_ready] by simp
next
  case StartSession then show ?thesis using assms slides_kept_inv[OF kept_start] by simp
next
  case (Drawing d) then show ?thesis using assms slides_kept_inv[OF kept_drawing] by simp
next
  case (ChatMessage v) then show ?thesis using assms slides_kept_inv[OF kept_chat] by simp
next
  case (FileUploadStarted v) then show ?thesis using assms slides_kept_inv[OF kept_upload] by simp
next
  case (BackgroundImageSet d) then show ?thesis using assms by (simp add: inv_background_image_set)
next
  case (BackgroundCleared v) then show ?thesis using assms by (simp add: inv_background_cleared)
next
  case (FileShared d) then show ?thesis using assms by (simp add: inv_file_shared)
next
  case (PresentationShared d) then show ?thesis using assms by (simp add: inv_presentation_shared)
next
  case (SlideChanged v) then show ?thesis using assms inv_slide_changed[of s c v sk] by simp
next
  case (SlideDrawingsCleared v)
  then show ?thesis using assms slides_kept_inv[OF kept_slide_drawings_cleared] by simp
next
  case (TextAdded d) then show ?thesis using assms slides_kept_inv[OF kept_text] by simp
next
  case ClearCanvas then show ?thesis using assms slides_kept_inv[OF kept_clear] by simp
next
  case ToggleParticipantDrawing
  then show ?thesis using assms slides_kept_inv[OF kept_toggle_drawing] by simp
next
  case ToggleParticipantChat
  then show ?thesis using assms slides_kept_inv[OF kept_toggle_chat] by simp
next
  case (KickParticipant t) then show ?thesis using assms slides_kept_inv[OF kept_kick] by simp
next
  case LeaveRoom then show ?thesis using assms slides_kept_inv[OF kept_leave] by simp
next
  case Disconnect then show ?thesis using assms slides_kept_inv[OF kept_disconnect] by simp
qed

lemma inv_react:
  assumes "slide_inv s" and "slide_payload_ok s i"
  shows "slide_inv (fst (react now i s))"
proof (cases i)
  case (Connection c)
  then show ?thesis using assms by (simp add: slide_inv_def)
next
  case (FromSocket c e)
  then show ?thesis using assms inv_handle[of s c e _ now]
    by (auto split: option.splits)
next
  case CleanupTick
  then show ?thesis using assms slides_kept_inv[OF kept_cleanup] by simp
qed

lemma inv_step:
  assumes "slide_inv s" and "slide_payload_ok s i"
  shows "slide_inv (fst (step now i s))"
  using assms inv_react[of s i now] by (cases "uncaught s") simp_all

lemma inv_init: "slide_inv init"
  by (simp add: slide_inv_def init_def)

lemma reachable_valid_inv: "reachable_valid s \<Longrightarrow> slide_inv s"
  by (induction rule: reachable_valid.induct) (auto intro: inv_init inv_step)

lemma fst_run_Nil: "fst (run s []) = s"
  by simp

lemma reachable_valid_lobby: "reachable_valid lobby_state"
proof -
  have 1: "reachable_valid (fst (step 0 (Connection ''a'') init))"
    by (rule reachable_valid_step[OF reachable_valid_init]) simp
  have 2: "reachable_valid (fst (step 1 (FromSocket ''a'' (CreateRoom
             \<lparr> q_roomId = Some ''R1'', q_username = JStr ''Alice'' \<rparr>))
             (fst (step 0 (Connection ''a'') init))))"
    by (rule reachable_valid_step[OF 1]) simp
  have 3: "reachable_valid (fst (step 2 (Connection ''b'') (fst (step 1 (FromSocket ''a'' (CreateRoom
             \<lparr> q_roomId = Some ''R1'', q_username = JStr ''Alice'' \<rparr>))
             (fst (step 0 (Connection ''a'') init))))))"
    by (rule reachable_valid_step[OF 2]) simp
  show ?thesis
    unfolding lobby_state_def lobby_inputs_def fst_run_Cons fst_run_Nil
    by (rule reachable_valid_step[OF 3]) simp
qed

lemma deck_room:
  "rooms deck_state ''R1'' =
     Some ((newRoom 1 ''a'' ''R1'' (JStr ''Alice''))
             \<lparr> participants :=
                 [(''a'', \<lparr> p_id = ''a'', p_username = JStr ''Alice'', p_role = Host,
                            p_ready = JBool True, p_joinedAt = 1 \<rparr>),
                  (''b'', \<lparr> p_id = ''b'', p_username = JStr ''Bob'', p_role = Participant,
                            p_ready = JBool False, p_joinedAt = 3 \<rparr>)],
               slides := JArr [JStr ''s0'', JStr ''s1'', JStr ''s2''],
               currentSlide := JNum 2 \<rparr>)"
  by (simp add: deck_state_def lobby_sockets lobby_room on_presentation_shared_def deck3_def
      js_or_def newRoom_def)

lemma deck_sockets: "sockets deck_state ''b'' = Some bob_sock"
  by (simp add: deck_state_def lobby_sockets lobby_room on_presentation_shared_def)

lemma deck_alive [simp]: "uncaught deck_state = None"
  by (simp add: deck_state_def lobby_sockets lobby_room on_presentation_shared_def deck3_def)

lemma deck3_ok: "slide_payload_ok lobby_state (FromSocket ''a'' (PresentationShared deck3))"
  by (simp add: deck3_def js_or_def slide_index_ok_def)

lemma turn_ok: "slide_payload_ok deck_state (FromSocket ''b'' (SlideChanged (JNum 1)))"
  by (simp add: deck_sockets deck_room slide_index_ok_def)

lemma reachable_valid_deck: "reachable_valid deck_state"
  unfolding deck_state_def by (rule reachable_valid_step[OF reachable_valid_lobby deck3_ok])

text \<open>
  C2, as the code has it. A new room has an empty deck and index 0. A step preserves the
  validity of every room's current slide index whenever its input is a
  \<^verbatim>\<open>slide-changed\<close> event whose index is valid for the sender's room, a
  \<^verbatim>\<open>presentation-shared\<close> event whose \<^verbatim>\<open>currentSlide\<close> is valid for its slides, or any
  other input at all: \<^verbatim>\<open>background-image-set\<close>, \<^verbatim>\<open>background-cleared\<close> and
  \<^verbatim>\<open>file-shared\<close> set index 0 on a deck of one or no image, whatever the payload. So in
  every state reached through such inputs the current slide index of every room is a valid
  index into its deck, or 0 when the deck is empty.
\<close>

theorem slide_index_valid:
  "slide_inv init
   \<and> (slide_inv s \<and> slide_payload_ok s i \<longrightarrow> slide_inv (fst (step now i s)))
   \<and> (reachable_valid s' \<longrightarrow>
        (\<forall>g r. rooms s' g = Some r \<longrightarrow> slide_index_ok (slides r) (currentSlide r)))"
  using inv_init inv_step[of s i now] reachable_valid_inv[of s']
  by (auto simp: slide_inv_def)

theorem slide_index_valid_witness:
  "slide_inv deck_state
   \<and> slide_payload_ok deck_state (FromSocket ''b'' (SlideChanged (JNum 1)))
   \<and> slide_inv turned_state
   \<and> reachable_valid turned_state
   \<and> map_option (\<lambda>r. (slides r, currentSlide r)) (rooms turned_state ''R1'')
       = Some (JArr [JStr ''s0'', JStr ''s1'', JStr ''s2''], JNum 1)
   \<and> slide_index_ok (JArr [JStr ''s0'', JStr ''s1'', JStr ''s2'']) (JNum 1)"
proof -
  have rv: "reachable_valid turned_state"
    unfolding turned_state_def by (rule reachable_valid_step[OF reachable_valid_deck turn_ok])
  have room: "map_option (\<lambda>r. (slides r, currentSlide r)) (rooms turned_state ''R1'')
       = Some (JArr [JStr ''s0'', JStr ''s1'', JStr ''s2''], JNum 1)"
    by (simp add: turned_state_def deck_sockets deck_room on_slide_changed_def)
  have inv_deck: "slide_inv deck_state"
    using slide_index_valid[where s' = deck_state] reachable_valid_deck
    by (simp add: slide_inv_def)
  have inv_turned: "slide_inv turned_state"
    using slide_index_valid[where s = deck_state
        and i = "FromSocket ''b'' (SlideChanged (JNum 1))" and now = 5] inv_deck turn_ok
    by (simp add: turned_state_def)
  from room obtain z where "rooms turned_state ''R1'' = Some z"
    and "slides z = JArr [JStr ''s0'', JStr ''s1'', JStr ''s2'']" and "currentSlide z = JNum 1"
    by auto
  with inv_turned have "slide_index_ok (JArr [JStr ''s0'', JStr ''s1'', JStr ''s2'']) (JNum 1)"
    unfolding slide_inv_def by metis
  with rv room inv_deck inv_turned turn_ok show ?thesis by simp
qed

text \<open>
  C2 as stated fails: \<^verbatim>\<open>slide-changed\<close> stores the index it is sent. In the lobby of R1,
  whose deck is empty, Alice sends index 5, and the current slide index is 5.
\<close>

theorem slide_changed_unchecked:
  "reachable stray_state
   \<and> map_option (\<lambda>r. (slides r, currentSlide r)) (rooms stray_state ''R1'')
       = Some (JArr [], JNum 5)
   \<and> \<not> slide_index_ok (JArr []) (JNum 5)"
proof -
  have "reachable stray_state"
    unfolding stray_state_def by (rule reachable_step[OF reachable_lobby])
  then show ?thesis
    by (simp add: stray_state_def lobby_sockets lobby_room on_slide_changed_def newRoom_def
        slide_index_ok_def)
qed

subsection \<open>The participant directory\<close>

lemma dir_inv_room: "dir_inv s \<Longrightarrow> rooms s g = Some r \<Longrightarrow> room_ok r"
  unfolding dir_inv_def by blast

lemma dir_inv_bound:
  "dir_inv s \<Longrightarrow> connectedUsers s c = Some u \<Longrightarrow>
   \<exists>sk. sockets s c = Some sk \<and> s_roomId sk = Some (u_roomId u) \<and> s_role sk = Some (u_role u)"
  unfolding dir_inv_def sockets_ok_def by blast

lemma dir_inv_seat:
  "dir_inv s \<Longrightarrow> sockets s c = Some sk \<Longrightarrow> s_roomId sk = Some g \<Longrightarrow>
   s_role sk = Some Participant \<Longrightarrow> rooms s g = Some r \<Longrightarrow>
   map_of (participants r) c = Some p \<Longrightarrow> p_role p = Participant"
  unfolding dir_inv_def sockets_ok_def by blast

lemma dir_kept_refl [simp]: "dir_kept s s"
  by (simp add: dir_kept_def)

lemma dir_kept_inv:
  assumes "dir_kept s s'" and "dir_inv s"
  shows "dir_inv s'"
proof -
  have rooms: "\<And>g r'. rooms s' g = Some r' \<Longrightarrow>
                 \<exists>r. rooms s g = Some r \<and> participants r' = participants r \<and> host r' = host r"
    using assms(1) by (simp add: dir_kept_def)
  have 1: "\<forall>g r. rooms s' g = Some r \<longrightarrow> room_ok r"
  proof (intro allI impI)
    fix g r' assume "rooms s' g = Some r'"
    from rooms[OF this] obtain r where "rooms s g = Some r"
      "participants r' = participants r" "host r' = host r" by blast
    moreover from this assms(2) have "room_ok r" by (simp add: dir_inv_def)
    ultimately show "room_ok r'" by (auto simp: room_ok_def)
  qed
  have 2: "sockets_ok s'"
    unfolding sockets_ok_def
  proof (intro conjI allI impI)
    fix c u assume "connectedUsers s' c = Some u"
    then show "\<exists>sk. sockets s' c = Some sk \<and> s_roomId sk = Some (u_roomId u)
                \<and> s_role sk = Some (u_role u)"
      using assms by (simp add: dir_kept_def dir_inv_def sockets_ok_def)
  next
    fix c sk g r' p
    assume a: "sockets s' c = Some sk \<and> s_roomId sk = Some g
             \<and> s_role sk = Some Participant \<and> rooms s' g = Some r'
             \<and> map_of (participants r') c = Some p"
    then obtain r where r: "rooms s g = Some r" "participants r' = participants r"
      using rooms by blast
    have "sockets s c = Some sk" using a assms(1) by (simp add: dir_kept_def)
    with a r assms(2) show "p_role p = Participant"
      unfolding dir_inv_def sockets_ok_def by metis
  qed
  from 1 2 show ?thesis by (simp add: dir_inv_def)
qed

lemma dkept_start: "dir_kept s (fst (on_start_session c sk s))"
  by (auto simp: dir_kept_def on_start_session_def Let_def split: option.splits if_splits)

lemma dkept_drawing: "dir_kept s (fst (on_drawing now c sk d s))"
  by (auto simp: dir_kept_def on_drawing_def Let_def split: option.splits if_splits)

lemma dkept_chat: "dir_kept s (fst (on_chat_message now c sk v s))"
  by (auto simp: dir_kept_def on_chat_message_def Let_def split: option.splits if_splits)

lemma dkept_upload: "dir_kept s (fst (on_file_upload_started c sk v s))"
  by (auto simp: dir_kept_def on_file_upload_started_def Let_def split: option.splits if_splits)

lemma dkept_background_image_set: "dir_kept s (fst (on_background_image_set c sk d s))"
  by (auto simp: dir_kept_def on_background_image_set_def Let_def split: option.splits if_splits)

lemma dkept_background_cleared: "dir_kept s (fst (on_background_cleared c sk v s))"
  by (auto simp: dir_kept_def on_background_cleared_def Let_def split: option.splits if_splits)

lemma dkept_file_shared: "dir_kept s (fst (on_file_shared c sk d s))"
  by (auto simp: dir_kept_def on_file_shared_def Let_def split: option.splits if_splits)

lemma dkept_presentation_shared: "dir_kept s (fst (on_presentation_shared c sk d s))"
  by (auto simp: dir_kept_def on_presentation_shared_def Let_def split: option.splits if_splits)

lemma dkept_slide_changed: "dir_kept s (fst (on_slide_changed c sk v s))"
  by (auto simp: dir_kept_def on_slide_changed_def Let_def split: option.splits if_splits)

lemma dkept_slide_drawings_cleared: "dir_kept s (fst (on_slide_drawings_cleared c sk v s))"
  by (auto simp: dir_kept_def on_slide_drawings_cleared_def Let_def split: option.splits if_splits)

lemma dkept_text: "dir_kept s (fst (on_text_added now c sk d s))"
  by (auto simp: dir_kept_def on_text_added_def Let_def split: option.splits if_splits)

lemma dkept_clear: "dir_kept s (fst (on_clear_canvas c sk s))"
  by (auto simp: dir_kept_def on_clear_canvas_def Let_def split: option.splits if_splits)

lemma dkept_toggle_drawing: "dir_kept s (fst (on_toggle_participant_drawing c sk s))"
  by (auto simp: dir_kept_def on_toggle_participant_drawing_def Let_def
      split: option.splits if_splits)

lemma dkept_toggle_chat: "dir_kept s (fst (on_toggle_participant_chat c sk s))"
  by (auto simp: dir_kept_def on_toggle_participant_chat_def Let_def
      split: option.splits if_splits)

lemma dkept_cleanup: "dir_kept s (cleanup_rooms now s)"
  by (auto simp: dir_kept_def cleanup_rooms_def split: option.splits if_splits)

lemma set_update_cases: "x \<in> set (AList.update k v al) \<Longrightarrow> x = (k, v) \<or> x \<in> set al"
  by (induction al) (auto split: if_splits)

lemma set_delete_iff: "x \<in> set (AList.delete k al) \<longleftrightarrow> x \<in> set al \<and> fst x \<noteq> k"
  by (auto simp: AList.delete_eq)

lemma room_ok_new: "room_ok (newRoom now c g u)"
  by (simp add: room_ok_def newRoom_def)

lemma room_ok_update:
  assumes "room_ok r" and "p_role v = Participant"
  shows "room_ok (r\<lparr> participants := AList.update c v (participants r) \<rparr>)"
  using assms by (auto simp: room_ok_def AList.distinct_update dest!: set_update_cases)

lemma room_ok_delete:
  assumes "room_ok r"
  shows "room_ok (r\<lparr> participants := AList.delete c (participants r) \<rparr>)"
  using assms by (auto simp: room_ok_def AList.distinct_delete set_delete_iff)

lemma create_effect:
  "fst (on_create_room now c sk d s) = s
   \<or> (\<exists>g. g \<noteq> [] \<and> rooms s g = None \<and>
        fst (on_create_room now c sk d s) =
          s\<lparr> rooms := (rooms s)(g \<mapsto> newRoom now c g (q_username d)),
             sockets := (sockets s)(c \<mapsto>
               sk\<lparr> s_roomId := Some g, s_username := q_username d,
                   s_role := Some Host, s_joined := insert g (s_joined sk) \<rparr>),
             connectedUsers := (connectedUsers s)(c \<mapsto>
               \<lparr> u_roomId = g, u_username = q_username d, u_role = Host \<rparr>) \<rparr>)"
  by (auto simp: on_create_room_def Let_def split: option.splits)

lemma join_effect:
  "fst (on_join_room now c sk d s) = s
   \<or> (\<exists>g r e. rooms s g = Some r \<and> q_roomId d = Some g \<and>
        fst (on_join_room now c sk d s) =
          s\<lparr> rooms := (rooms s)(g \<mapsto> r\<lparr> participants := AList.update c
                 \<lparr> p_id = c, p_username = q_username d, p_role = Participant,
                   p_ready = JBool False, p_joinedAt = now \<rparr> (participants r) \<rparr>),
             sockets := (sockets s)(c \<mapsto>
               sk\<lparr> s_roomId := Some g, s_username := q_username d,
                   s_role := Some Participant, s_joined := insert g (s_joined sk) \<rparr>),
             connectedUsers := (connectedUsers s)(c \<mapsto>
               \<lparr> u_roomId = g, u_username = q_username d, u_role = Participant \<rparr>),
             uncaught := e \<rparr>)"
proof (cases "lookup_room s (q_roomId d)")
  case None
  then show ?thesis by (simp add: on_join_room_def)
next
  case (Some gr)
  obtain g r where gr: "gr = (g, r)" by (cases gr)
  have q: "q_roomId d = Some g" "rooms s g = Some r"
    using Some gr by (auto simp: lookup_room_def split: option.splits if_splits)
  show ?thesis
  proof (cases "length (participants r) \<ge> maxParticipants (settings r)")
    case True
    then show ?thesis using Some gr by (simp add: on_join_room_def)
  next
    case False
    have "fst (on_join_room now c sk d s) =
          s\<lparr> rooms := (rooms s)(g \<mapsto> r\<lparr> participants := AList.update c
                 \<lparr> p_id = c, p_username = q_username d, p_role = Participant,
                   p_ready = JBool False, p_joinedAt = now \<rparr> (participants r) \<rparr>),
             sockets := (sockets s)(c \<mapsto>
               sk\<lparr> s_roomId := Some g, s_username := q_username d,
                   s_role := Some Participant, s_joined := insert g (s_joined sk) \<rparr>),
             connectedUsers := (connectedUsers s)(c \<mapsto>
               \<lparr> u_roomId = g, u_username = q_username d, u_role = Participant \<rparr>),
             uncaught := (if converts (q_username d) then uncaught s else Some TypeError) \<rparr>"
      using Some gr False by (simp add: on_join_room_def Let_def)
    then show ?thesis
      apply -
      apply (rule disjI2)
      apply (rule exI[of _ g], rule exI[of _ r],
             rule exI[of _ "if converts (q_username d) then uncaught s else Some TypeError"])
      using q by simp
  qed
qed

lemma toggle_ready_effect:
  "fst (on_toggle_ready c sk v s) = s
   \<or> (\<exists>g r p e. rooms s g = Some r \<and> map_of (participants r) c = Some p
        \<and> s_roomId sk = Some g \<and> s_role sk = Some Participant \<and>
        fst (on_toggle_ready c sk v s) =
          s\<lparr> rooms := (rooms s)(g \<mapsto>
               r\<lparr> participants := AList.update c (p\<lparr> p_ready := v \<rparr>) (participants r) \<rparr>),
             uncaught := e \<rparr>)"
proof (cases "bound_room sk")
  case None
  then show ?thesis by (simp add: on_toggle_ready_def)
next
  case (Some g)
  note g = this
  show ?thesis
  proof (cases "rooms s g")
    case None
    then show ?thesis using g by (simp add: on_toggle_ready_def)
  next
    case (Some r)
    note r = this
    show ?thesis
    proof (cases "s_role sk = Some Participant")
      case False
      then show ?thesis using g r by (simp add: on_toggle_ready_def)
    next
      case True
      note role = this
      show ?thesis
      proof (cases "map_of (participants r) c")
        case None
        then show ?thesis using g r role by (simp add: on_toggle_ready_def)
      next
        case (Some p)
        define r' where
          "r' = r\<lparr> participants := AList.update c (p\<lparr> p_ready := v \<rparr>) (participants r) \<rparr>"
        have run: "on_toggle_ready c sk v s = logged [s_username sk]
             (s\<lparr> rooms := (rooms s)(g \<mapsto> r') \<rparr>,
              [(ToRoom g, MLobbyUpdated (participant_list r'))])"
          using g r role Some by (simp add: on_toggle_ready_def Let_def r'_def)
        have "\<exists>e. fst (on_toggle_ready c sk v s)
                 = s\<lparr> rooms := (rooms s)(g \<mapsto> r'), uncaught := e \<rparr>"
          unfolding run by (rule logged_fst)
        then obtain e where
          "fst (on_toggle_ready c sk v s) = s\<lparr> rooms := (rooms s)(g \<mapsto> r'), uncaught := e \<rparr>"
          ..
        note eq = this
        have sg: "s_roomId sk = Some g"
          using g by (auto simp: bound_room_def split: option.splits if_splits)
        show ?thesis
          apply (rule disjI2)
          apply (rule exI[of _ g], rule exI[of _ r], rule exI[of _ p], rule exI[of _ e])
          using r Some sg role eq unfolding r'_def by simp
      qed
    qed
  qed
qed

lemma leave_effect:
  "fst (leaveRoom c sk s) = s
   \<or> (\<exists>u. connectedUsers s c = Some u \<and>
        (fst (leaveRoom c sk s) = s\<lparr> connectedUsers := (connectedUsers s)(c := None) \<rparr>
         \<or> fst (leaveRoom c sk s) =
             s\<lparr> rooms := (rooms s)(u_roomId u := None),
                connectedUsers := (connectedUsers s)(c := None) \<rparr>
         \<or> (\<exists>r. rooms s (u_roomId u) = Some r \<and> s_role sk \<noteq> Some Host \<and>
              fst (leaveRoom c sk s) =
                s\<lparr> rooms := (rooms s)(u_roomId u \<mapsto>
                     r\<lparr> participants := AList.delete c (participants r) \<rparr>),
                   connectedUsers := (connectedUsers s)(c := None) \<rparr>)))"
  by (auto simp: leaveRoom_def Let_def split: option.splits)

lemma dinv_create:
  assumes "dir_inv s" and "sockets s c = Some sk"
  shows "dir_inv (fst (on_create_room now c sk d s))"
  using create_effect[of now c sk d s]
proof (elim disjE exE conjE)
  assume "fst (on_create_room now c sk d s) = s"
  then show ?thesis using assms by simp
next
  fix g
  assume fresh: "rooms s g = None"
    and eq: "fst (on_create_room now c sk d s) =
          s\<lparr> rooms := (rooms s)(g \<mapsto> newRoom now c g (q_username d)),
             sockets := (sockets s)(c \<mapsto>
               sk\<lparr> s_roomId := Some g, s_username := q_username d,
                   s_role := Some Host, s_joined := insert g (s_joined sk) \<rparr>),
             connectedUsers := (connectedUsers s)(c \<mapsto>
               \<lparr> u_roomId = g, u_username = q_username d, u_role = Host \<rparr>) \<rparr>"
  have seat: "map_of (participants (newRoom now c g (q_username d))) c' = Some p \<Longrightarrow> c' = c"
    for c' p by (simp add: newRoom_def split: if_splits)
  show ?thesis
    unfolding eq using assms(1) fresh seat
    by (auto simp: dir_inv_def sockets_ok_def room_ok_new)
qed

lemma dinv_join:
  assumes "dir_inv s" and "sockets s c = Some sk"
  shows "dir_inv (fst (on_join_room now c sk d s))"
  using join_effect[of now c sk d s]
proof (elim disjE exE conjE)
  assume "fst (on_join_room now c sk d s) = s"
  then show ?thesis using assms by simp
next
  fix g r e
  assume r: "rooms s g = Some r"
    and eq: "fst (on_join_room now c sk d s) =
          s\<lparr> rooms := (rooms s)(g \<mapsto> r\<lparr> participants := AList.update c
                 \<lparr> p_id = c, p_username = q_username d, p_role = Participant,
                   p_ready = JBool False, p_joinedAt = now \<rparr> (participants r) \<rparr>),
             sockets := (sockets s)(c \<mapsto>
               sk\<lparr> s_roomId := Some g, s_username := q_username d,
                   s_role := Some Participant, s_joined := insert g (s_joined sk) \<rparr>),
             connectedUsers := (connectedUsers s)(c \<mapsto>
               \<lparr> u_roomId = g, u_username = q_username d, u_role = Participant \<rparr>),
             uncaught := e \<rparr>"
  have ok: "room_ok (r\<lparr> participants := AList.update c
                 \<lparr> p_id = c, p_username = q_username d, p_role = Participant,
                   p_ready = JBool False, p_joinedAt = now \<rparr> (participants r) \<rparr>)"
    using assms(1) r by (intro room_ok_update) (simp_all add: dir_inv_def)
  show ?thesis
    unfolding eq using assms(1) ok r
    by (auto simp: dir_inv_def sockets_ok_def AList.update_conv')
qed

lemma dinv_toggle_ready:
  assumes "dir_inv s" and "sockets s c = Some sk"
  shows "dir_inv (fst (on_toggle_ready c sk v s))"
  using toggle_ready_effect[of c sk v s]
proof (elim disjE exE conjE)
  assume "fst (on_toggle_ready c sk v s) = s"
  then show ?thesis using assms by simp
next
  fix g r p e
  assume r: "rooms s g = Some r" and p: "map_of (participants r) c = Some p"
    and b: "s_roomId sk = Some g" "s_role sk = Some Participant"
    and eq: "fst (on_toggle_ready c sk v s) =
          s\<lparr> rooms := (rooms s)(g \<mapsto>
               r\<lparr> participants := AList.update c (p\<lparr> p_ready := v \<rparr>) (participants r) \<rparr>),
             uncaught := e \<rparr>"
  have role: "p_role p = Participant"
    using assms r p b unfolding dir_inv_def sockets_ok_def by metis
  have ok: "room_ok (r\<lparr> participants := AList.update c (p\<lparr> p_ready := v \<rparr>) (participants r) \<rparr>)"
    using assms(1) r role by (intro room_ok_update) (simp_all add: dir_inv_def)
  show ?thesis
    unfolding eq using assms(1) ok role r
    by (auto simp: dir_inv_def sockets_ok_def AList.update_conv' split: if_splits)
qed

lemma dinv_leave:
  assumes "dir_inv s" and "sockets s c = Some sk"
  shows "dir_inv (fst (leaveRoom c sk s))"
  using leave_effect[of c sk s]
proof (elim disjE exE conjE)
  assume "fst (leaveRoom c sk s) = s"
  then show ?thesis using assms by simp
next
  fix u
  assume "fst (leaveRoom c sk s) = s\<lparr> connectedUsers := (connectedUsers s)(c := None) \<rparr>"
  then show ?thesis using assms(1)
    by (auto simp: dir_inv_def sockets_ok_def)
next
  fix u
  assume "fst (leaveRoom c sk s) =
             s\<lparr> rooms := (rooms s)(u_roomId u := None),
                connectedUsers := (connectedUsers s)(c := None) \<rparr>"
  then show ?thesis using assms(1)
    by (auto simp: dir_inv_def sockets_ok_def split: if_splits)
next
  fix u r
  assume r: "rooms s (u_roomId u) = Some r"
    and eq: "fst (leaveRoom c sk s) =
                s\<lparr> rooms := (rooms s)(u_roomId u \<mapsto>
                     r\<lparr> participants := AList.delete c (participants r) \<rparr>),
                   connectedUsers := (connectedUsers s)(c := None) \<rparr>"
  have ok: "room_ok (r\<lparr> participants := AList.delete c (participants r) \<rparr>)"
    using assms(1) r by (intro room_ok_delete) (simp add: dir_inv_def)
  show ?thesis
    unfolding eq using assms(1) ok r
    by (auto simp: dir_inv_def sockets_ok_def AList.delete_conv' split: if_splits)
qed

lemma dinv_drop_socket:
  assumes "dir_inv s" and "connectedUsers s c = None"
  shows "dir_inv (s\<lparr> sockets := (sockets s)(c := None) \<rparr>)"
  using assms by (auto simp: dir_inv_def sockets_ok_def)

lemma leave_forgets: "connectedUsers (fst (leaveRoom c sk s)) c = None"
  by (auto simp: leaveRoom_def Let_def split: option.splits)

lemma fst_disconnect:
  "fst (on_disconnect c sk s) =
     (fst (leaveRoom c sk s))\<lparr> sockets := (sockets (fst (leaveRoom c sk s)))(c := None) \<rparr>"
  by (simp add: on_disconnect_def split: prod.splits)

lemma dinv_disconnect:
  assumes "dir_inv s" and "sockets s c = Some sk"
  shows "dir_inv (fst (on_disconnect c sk s))"
  unfolding fst_disconnect by (rule dinv_drop_socket[OF dinv_leave[OF assms] leave_forgets])

lemma dinv_kick:
  assumes "dir_inv s"
  shows "dir_inv (fst (on_kick_participant c sk t s))"
  using kick_cases[of c sk t s] assms dinv_disconnect by auto

lemma dinv_handle:
  assumes "dir_inv s" and "sockets s c = Some sk"
  shows "dir_inv (fst (handle now c sk e s))"
proof (cases e)
  case (CreateRoom d) then show ?thesis using assms by (simp add: dinv_create)
next
  case (JoinRoom d) then show ?thesis using assms by (simp add: dinv_join)
next
  case (ToggleReady v) then show ?thesis using assms by (simp add: dinv_toggle_ready)
next
  case StartSession then show ?thesis using assms dir_kept_inv[OF dkept_start] by simp
next
  case (Drawing d) then show ?thesis using assms dir_kept_inv[OF dkept_drawing] by simp
next
  case (ChatMessage v) then show ?thesis using assms dir_kept_inv[OF dkept_chat] by simp
next
  case (FileUploadStarted v) then show ?thesis using assms dir_kept_inv[OF dkept_upload] by simp
next
  case (BackgroundImageSet d)
  then show ?thesis using assms dir_kept_inv[OF dkept_background_image_set] by simp
next
  case (BackgroundCleared v)
  then show ?thesis using assms dir_kept_inv[OF dkept_background_cleared] by simp
next
  case (FileShared d) then show ?thesis using assms dir_kept_inv[OF dkept_file_shared] by simp
next
  case (PresentationShared d)
  then show ?thesis using assms dir_kept_inv[OF dkept_presentation_shared] by simp
next
  case (SlideChanged v) then show ?thesis using assms dir_kept_inv[OF dkept_slide_changed] by simp
next
  case (SlideDrawingsCleared v)
  then show ?thesis using assms dir_kept_inv[OF dkept_slide_drawings_cleared] by simp
next
  case (TextAdded d) then show ?thesis using assms dir_kept_inv[OF dkept_text] by simp
next
  case ClearCanvas then show ?thesis using assms dir_kept_inv[OF dkept_clear] by simp
next
  case ToggleParticipantDrawing
  then show ?thesis using assms dir_kept_inv[OF dkept_toggle_drawing] by simp
next
  case ToggleParticipantChat
  then show ?thesis using assms dir_kept_inv[OF dkept_toggle_chat] by simp
next
  case (KickParticipant t) then show ?thesis using assms by (simp add: dinv_kick)
next
  case LeaveRoom then show ?thesis using assms by (simp add: dinv_leave)
next
  case Disconnect then show ?thesis using assms by (simp add: dinv_disconnect)
qed

lemma dinv_react:
  assumes "dir_inv s"
  shows "dir_inv (fst (react now i s))"
proof (cases i)
  case (Connection c)
  show ?thesis
  proof (cases "sockets s c")
    case None
    have "connectedUsers s c = None"
    proof (cases "connectedUsers s c")
      case (Some u)
      with dir_inv_bound[OF assms, of c u] None show ?thesis by simp
    qed simp
    with None assms Connection show ?thesis
      by (auto simp: dir_inv_def sockets_ok_def new_socket_def)
  next
    case (Some sk)
    with assms Connection show ?thesis by simp
  qed
next
  case (FromSocket c e)
  then show ?thesis using assms dinv_handle[of s c _ now e]
    by (auto split: option.splits)
next
  case CleanupTick
  then show ?thesis using assms dir_kept_inv[OF dkept_cleanup] by simp
qed

lemma dinv_step:
  assumes "dir_inv s"
  shows "dir_inv (fst (step now i s))"
  using assms dinv_react[of s now i] by (cases "uncaught s") simp_all

lemma dinv_init: "dir_inv init"
  by (simp add: dir_inv_def sockets_ok_def init_def)

lemma reachable_dir_inv: "reachable s \<Longrightarrow> dir_inv s"
  by (induction rule: reachable.induct) (auto intro: dinv_init dinv_step)

subsection \<open>Counting hosts\<close>

lemma host_count_alt:
  "host_count r = length (filter (\<lambda>x. p_role (snd x) = Host) (participants r))"
  by (simp add: host_count_def participant_list_def filter_map comp_def)

lemma hosts_le_1:
  assumes "distinct (map fst al)" and "\<forall>k p. (k, p) \<in> set al \<and> p_role p = Host \<longrightarrow> k = h"
  shows "length (filter (\<lambda>x. p_role (snd x) = Host) al) \<le> 1"
  using assms
proof (induction al)
  case Nil
  then show ?case by simp
next
  case (Cons a al)
  show ?case
  proof (cases "p_role (snd a) = Host")
    case False
    with Cons show ?thesis by auto
  next
    case True
    then have "fst a = h" using Cons.prems(2) by (cases a) auto
    moreover have "h \<notin> fst ` set al" using Cons.prems(1) \<open>fst a = h\<close> by auto
    ultimately have "\<forall>x \<in> set al. p_role (snd x) \<noteq> Host"
    proof (intro ballI notI)
      fix x assume x: "x \<in> set al" "p_role (snd x) = Host"
      then have "(fst x, snd x) \<in> set (a # al)" by simp
      with Cons.prems(2) x(2) have "fst x = h" by blast
      with \<open>h \<notin> fst ` set al\<close> x(1) show False by force
    qed
    then have "filter (\<lambda>x. p_role (snd x) = Host) al = []"
      by (simp add: filter_empty_conv)
    with True show ?thesis by simp
  qed
qed

lemma room_ok_host_count: "room_ok r \<Longrightarrow> host_count r \<le> 1"
  unfolding host_count_alt room_ok_def by (rule hosts_le_1[where h = "host r"]) auto

lemma hosts_update:
  assumes "p_role v \<noteq> Host" and "\<forall>p. (c, p) \<in> set al \<longrightarrow> p_role p \<noteq> Host"
  shows "filter (\<lambda>x. p_role (snd x) = Host) (AList.update c v al)
         = filter (\<lambda>x. p_role (snd x) = Host) al"
  using assms by (induction al) auto

lemma hosts_delete:
  assumes "\<forall>p. (c, p) \<in> set al \<longrightarrow> p_role p \<noteq> Host"
  shows "filter (\<lambda>x. p_role (snd x) = Host) (AList.delete c al)
         = filter (\<lambda>x. p_role (snd x) = Host) al"
  using assms by (induction al) auto

lemma seat_not_host:
  assumes "room_ok r" and "map_of (participants r) c = Some p" and "p_role p = Participant"
  shows "\<forall>q. (c, q) \<in> set (participants r) \<longrightarrow> p_role q \<noteq> Host"
proof (intro allI impI)
  fix q assume "(c, q) \<in> set (participants r)"
  with assms(1) have "map_of (participants r) c = Some q"
    by (intro map_of_is_SomeI) (simp_all add: room_ok_def)
  with assms(2,3) show "p_role q \<noteq> Host" by simp
qed

lemma other_key_not_host:
  assumes "room_ok r" and "c \<noteq> host r"
  shows "\<forall>q. (c, q) \<in> set (participants r) \<longrightarrow> p_role q \<noteq> Host"
  using assms by (auto simp: room_ok_def)

lemma empty_seat_not_host:
  assumes "map_of (participants r) c = None"
  shows "\<forall>q. (c, q) \<in> set (participants r) \<longrightarrow> p_role q \<noteq> Host"
  using assms by (auto simp: map_of_eq_None_iff image_iff)

lemma hc_kept:
  assumes "dir_kept s s'" and "rooms s g = Some r" and "rooms s' g = Some r'"
  shows "host_count r' = host_count r"
proof -
  from assms(1,3) obtain r0 where "rooms s g = Some r0" "participants r' = participants r0"
    unfolding dir_kept_def by blast
  with assms(2) show ?thesis by (simp add: host_count_alt)
qed

lemma hc_create:
  assumes "rooms s g = Some r" and "rooms (fst (on_create_room now c sk d s)) g = Some r'"
  shows "host_count r' = host_count r"
  using create_effect[of now c sk d s] assms by (auto split: if_splits)

lemma hc_join:
  assumes "dir_inv s" and "rooms s g = Some r"
    and "rooms (fst (on_join_room now c sk d s)) g = Some r'"
    and "\<not> (c = host r \<and> q_roomId d = Some g)"
  shows "host_count r' = host_count r"
  using join_effect[of now c sk d s]
proof (elim disjE exE conjE)
  assume "fst (on_join_room now c sk d s) = s"
  with assms show ?thesis by simp
next
  fix g0 r0 e
  assume r0: "rooms s g0 = Some r0" and d: "q_roomId d = Some g0"
    and eq: "fst (on_join_room now c sk d s) =
          s\<lparr> rooms := (rooms s)(g0 \<mapsto> r0\<lparr> participants := AList.update c
                 \<lparr> p_id = c, p_username = q_username d, p_role = Participant,
                   p_ready = JBool False, p_joinedAt = now \<rparr> (participants r0) \<rparr>),
             sockets := (sockets s)(c \<mapsto>
               sk\<lparr> s_roomId := Some g0, s_username := q_username d,
                   s_role := Some Participant, s_joined := insert g0 (s_joined sk) \<rparr>),
             connectedUsers := (connectedUsers s)(c \<mapsto>
               \<lparr> u_roomId = g0, u_username = q_username d, u_role = Participant \<rparr>),
             uncaught := e \<rparr>"
  show ?thesis
  proof (cases "g0 = g")
    case False
    with assms eq show ?thesis by simp
  next
    case True
    with r0 assms(2) have "r0 = r" by simp
    with True d assms(4) have "c \<noteq> host r" by simp
    from other_key_not_host[OF dir_inv_room[OF assms(1,2)] this]
    have "\<forall>q. (c, q) \<in> set (participants r) \<longrightarrow> p_role q \<noteq> Host" .
    from hosts_update[OF _ this] True \<open>r0 = r\<close> assms(3) eq
    show ?thesis by (auto simp: host_count_alt)
  qed
qed

lemma hc_toggle_ready:
  assumes "dir_inv s" and "sockets s c = Some sk" and "rooms s g = Some r"
    and "rooms (fst (on_toggle_ready c sk v s)) g = Some r'"
  shows "host_count r' = host_count r"
  using toggle_ready_effect[of c sk v s]
proof (elim disjE exE conjE)
  assume "fst (on_toggle_ready c sk v s) = s"
  with assms show ?thesis by simp
next
  fix g0 r0 p e
  assume r0: "rooms s g0 = Some r0" and p: "map_of (participants r0) c = Some p"
    and b: "s_roomId sk = Some g0" "s_role sk = Some Participant"
    and eq: "fst (on_toggle_ready c sk v s) =
          s\<lparr> rooms := (rooms s)(g0 \<mapsto>
               r0\<lparr> participants := AList.update c (p\<lparr> p_ready := v \<rparr>) (participants r0) \<rparr>),
             uncaught := e \<rparr>"
  show ?thesis
  proof (cases "g0 = g")
    case False
    with assms eq show ?thesis by simp
  next
    case True
    with r0 assms(3) have "r0 = r" by simp
    have role: "p_role p = Participant"
      using dir_inv_seat[OF assms(1,2) b r0 p] .
    from seat_not_host[OF dir_inv_room[OF assms(1) r0] p role]
    have "\<forall>q. (c, q) \<in> set (participants r0) \<longrightarrow> p_role q \<noteq> Host" .
    from hosts_update[OF _ this, of "p\<lparr> p_ready := v \<rparr>"] role True \<open>r0 = r\<close> assms(4) eq
    show ?thesis by (auto simp: host_count_alt)
  qed
qed

lemma hc_leave:
  assumes "dir_inv s" and "sockets s c = Some sk" and "rooms s g = Some r"
    and "rooms (fst (leaveRoom c sk s)) g = Some r'"
  shows "host_count r' = host_count r"
  using leave_effect[of c sk s]
proof (elim disjE exE conjE)
  assume "fst (leaveRoom c sk s) = s"
  with assms show ?thesis by simp
next
  fix u
  assume "fst (leaveRoom c sk s) = s\<lparr> connectedUsers := (connectedUsers s)(c := None) \<rparr>"
  with assms show ?thesis by simp
next
  fix u
  assume "fst (leaveRoom c sk s) =
             s\<lparr> rooms := (rooms s)(u_roomId u := None),
                connectedUsers := (connectedUsers s)(c := None) \<rparr>"
  with assms show ?thesis by (auto split: if_splits)
next
  fix u r0
  assume u: "connectedUsers s c = Some u" and r0: "rooms s (u_roomId u) = Some r0"
    and nh: "s_role sk \<noteq> Some Host"
    and eq: "fst (leaveRoom c sk s) =
                s\<lparr> rooms := (rooms s)(u_roomId u \<mapsto>
                     r0\<lparr> participants := AList.delete c (participants r0) \<rparr>),
                   connectedUsers := (connectedUsers s)(c := None) \<rparr>"
  show ?thesis
  proof (cases "u_roomId u = g")
    case False
    with assms eq show ?thesis by simp
  next
    case True
    with r0 assms(3) have "r0 = r" by simp
    from dir_inv_bound[OF assms(1) u] assms(2)
    have b: "s_roomId sk = Some (u_roomId u)" "s_role sk = Some (u_role u)" by auto
    with nh have role: "s_role sk = Some Participant" by (cases "u_role u") auto
    have "\<forall>q. (c, q) \<in> set (participants r0) \<longrightarrow> p_role q \<noteq> Host"
    proof (cases "map_of (participants r0) c")
      case None
      then show ?thesis by (rule empty_seat_not_host)
    next
      case (Some p)
      from dir_inv_seat[OF assms(1,2) b(1) role r0 Some]
      show ?thesis by (rule seat_not_host[OF dir_inv_room[OF assms(1) r0] Some])
    qed
    from hosts_delete[OF this] True \<open>r0 = r\<close> assms(4) eq
    show ?thesis by (auto simp: host_count_alt)
  qed
qed

lemma hc_disconnect:
  assumes "dir_inv s" and "sockets s c = Some sk" and "rooms s g = Some r"
    and "rooms (fst (on_disconnect c sk s)) g = Some r'"
  shows "host_count r' = host_count r"
  using hc_leave[OF assms(1-3), of r'] assms(4) by (simp add: fst_disconnect)

lemma hc_kick:
  assumes "dir_inv s" and "rooms s g = Some r"
    and "rooms (fst (on_kick_participant c sk t s)) g = Some r'"
  shows "host_count r' = host_count r"
  using kick_cases[of c sk t s] assms hc_disconnect[OF assms(1) _ assms(2), of t _ r'] by auto

lemma hc_handle:
  assumes "dir_inv s" and "sockets s c = Some sk" and "rooms s g = Some r"
    and "rooms (fst (handle now c sk e s)) g = Some r'"
    and "\<not> is_join (host r) g (FromSocket c e)"
  shows "host_count r' = host_count r"
proof (cases e)
  case (CreateRoom d) then show ?thesis using assms hc_create by simp
next
  case (JoinRoom d) then show ?thesis using assms hc_join[of s g r now c sk d r'] by auto
next
  case (ToggleReady v) then show ?thesis using assms hc_toggle_ready by simp
next
  case StartSession then show ?thesis using assms hc_kept[OF dkept_start] by simp
next
  case (Drawing d) then show ?thesis using assms hc_kept[OF dkept_drawing] by simp
next
  case (ChatMessage v) then show ?thesis using assms hc_kept[OF dkept_chat] by simp
next
  case (FileUploadStarted v) then show ?thesis using assms hc_kept[OF dkept_upload] by simp
next
  case (BackgroundImageSet d)
  then show ?thesis using assms hc_kept[OF dkept_background_image_set] by simp
next
  case (BackgroundCleared v)
  then show ?thesis using assms hc_kept[OF dkept_background_cleared] by simp
next
  case (FileShared d) then show ?thesis using assms hc_kept[OF dkept_file_shared] by simp
next
  case (PresentationShared d)
  then show ?thesis using assms hc_kept[OF dkept_presentation_shared] by simp
next
  case (SlideChanged v) then show ?thesis using assms hc_kept[OF dkept_slide_changed] by simp
next
  case (SlideDrawingsCleared v)
  then show ?thesis using assms hc_kept[OF dkept_slide_drawings_cleared] by simp
next
  case (TextAdded d) then show ?thesis using assms hc_kept[OF dkept_text] by simp
next
  case ClearCanvas then show ?thesis using assms hc_kept[OF dkept_clear] by simp
next
  case ToggleParticipantDrawing
  then show ?thesis using assms hc_kept[OF dkept_toggle_drawing] by simp
next
  case ToggleParticipantChat
  then show ?thesis using assms hc_kept[OF dkept_toggle_chat] by simp
next
  case (KickParticipant t) then show ?thesis using assms hc_kick by simp
next
  case LeaveRoom then show ?thesis using assms hc_leave by simp
next
  case Disconnect then show ?thesis using assms hc_disconnect by simp
qed

lemma hc_react:
  assumes "dir_inv s" and "rooms s g = Some r" and "rooms (fst (react now i s)) g = Some r'"
    and "\<not> is_join (host r) g i"
  shows "host_count r' = host_count r"
proof (cases i)
  case (Connection c)
  with assms show ?thesis by (auto split: if_splits)
next
  case (FromSocket c e)
  show ?thesis
  proof (cases "sockets s c")
    case None
    with FromSocket assms show ?thesis by simp
  next
    case (Some sk)
    with FromSocket assms hc_handle[of s c sk g r now e r'] show ?thesis by simp
  qed
next
  case CleanupTick
  with assms hc_kept[OF dkept_cleanup] show ?thesis by simp
qed

lemma hc_step:
  assumes "dir_inv s" and "rooms s g = Some r" and "rooms (fst (step now i s)) g = Some r'"
    and "\<not> is_join (host r) g i"
  shows "host_count r' = host_count r"
  using assms hc_react[of s g r now i r'] by (cases "uncaught s") simp_all

lemma host_leaves:
  assumes "s_role sk = Some Host" and "connectedUsers s c = Some u"
    and "rooms s (u_roomId u) = Some r"
  shows "leaveRoom c sk s =
           (s\<lparr> rooms := (rooms s)(u_roomId u := None),
               connectedUsers := (connectedUsers s)(c := None) \<rparr>,
            [(ToRoom (u_roomId u), MRoomEnded ''Host left the room'')])"
  using assms by (simp add: leaveRoom_def Let_def)

lemma created_room:
  assumes "q_roomId d = Some g" and "g \<noteq> []" and "js_truthy (q_username d)"
    and "rooms s g = None"
  shows "map_option participant_list (rooms (fst (on_create_room now c sk d s)) g) =
           Some [\<lparr> p_id = c, p_username = q_username d, p_role = Host, p_ready = JBool True,
                    p_joinedAt = now \<rparr>]"
  using assms by (simp add: on_create_room_def newRoom_def participant_list_def Let_def)

lemma lobby_participants:
  "map_option participants (rooms lobby_state ''R1'') = Some [(''a'', alice_seat), (''b'', bob_seat)]"
  by (simp add: lobby_room alice_seat_def bob_seat_def)

subsection \<open>Hosts\<close>

text \<open>
  C9. In every reachable state, every participant of every room whose role is host has
  its readiness flag equal to \<^verbatim>\<open>true\<close>. The flag is set to \<^verbatim>\<open>true\<close> when the room is
  created (the new room's directory is the one host entry, ready), and a
  \<^verbatim>\<open>toggle-ready\<close> event from a socket whose role is host changes nothing and sends
  nothing.
\<close>

theorem host_always_ready:
  "(reachable s \<and> rooms s g = Some r \<and> (k, p) \<in> set (participants r) \<and> p_role p = Host
      \<longrightarrow> p_ready p = JBool True)
   \<and> (q_roomId d = Some g1 \<and> g1 \<noteq> [] \<and> js_truthy (q_username d) \<and> rooms s1 g1 = None
      \<longrightarrow> map_option participant_list (rooms (fst (on_create_room now c1 sk1 d s1)) g1) =
            Some [\<lparr> p_id = c1, p_username = q_username d, p_role = Host,
                     p_ready = JBool True, p_joinedAt = now \<rparr>])
   \<and> (s_role sk2 = Some Host \<longrightarrow> on_toggle_ready c2 sk2 v s2 = (s2, []))"
proof (intro conjI impI)
  assume a: "reachable s \<and> rooms s g = Some r \<and> (k, p) \<in> set (participants r) \<and> p_role p = Host"
  then have "room_ok r" using dir_inv_room[OF reachable_dir_inv] by blast
  with a show "p_ready p = JBool True" unfolding room_ok_def by blast
next
  assume "q_roomId d = Some g1 \<and> g1 \<noteq> [] \<and> js_truthy (q_username d) \<and> rooms s1 g1 = None"
  then show "map_option participant_list (rooms (fst (on_create_room now c1 sk1 d s1)) g1) =
            Some [\<lparr> p_id = c1, p_username = q_username d, p_role = Host,
                     p_ready = JBool True, p_joinedAt = now \<rparr>]"
    by (simp add: created_room)
next
  assume "s_role sk2 = Some Host"
  then show "on_toggle_ready c2 sk2 v s2 = (s2, [])"
    by (simp add: on_toggle_ready_def split: option.splits)
qed

theorem host_always_ready_witness:
  "reachable lobby_state
   \<and> map_option participants (rooms lobby_state ''R1'') = Some [(''a'', alice_seat), (''b'', bob_seat)]
   \<and> p_role alice_seat = Host
   \<and> p_ready alice_seat = JBool True
   \<and> rooms lobby_state ''R2'' = None
   \<and> map_option participant_list
        (rooms (fst (on_create_room 5 ''b'' bob_sock request_R2 lobby_state)) ''R2'')
       = Some [\<lparr> p_id = ''b'', p_username = JStr ''Bob'', p_role = Host, p_ready = JBool True,
                  p_joinedAt = 5 \<rparr>]
   \<and> s_role alice_sock = Some Host
   \<and> on_toggle_ready ''a'' alice_sock (JBool False) lobby_state = (lobby_state, [])"
proof -
  from lobby_participants obtain r where r: "rooms lobby_state ''R1'' = Some r"
    "participants r = [(''a'', alice_seat), (''b'', bob_seat)]" by auto
  have role: "p_role alice_seat = Host" by (simp add: alice_seat_def)
  have none: "rooms lobby_state ''R2'' = None" by (simp add: lobby_rooms_other)
  show ?thesis
    using host_always_ready[where s = lobby_state and g = "''R1''" and r = r and k = "''a''"
        and p = alice_seat and d = request_R2 and ?g1.0 = "''R2''" and ?s1.0 = lobby_state
        and now = 5 and ?c1.0 = "''b''" and ?sk1.0 = bob_sock and ?sk2.0 = alice_sock
        and ?c2.0 = "''a''" and v = "JBool False" and ?s2.0 = lobby_state]
      reachable_lobby r role none lobby_participants
    by (simp add: request_R2_def)
qed

lemma moved_facts:
  "uncaught moved_state = None"
  "sockets moved_state ''a'' =
     Some (alice_sock\<lparr> s_roomId := Some ''R2'', s_joined := {''R2'', ''R1''} \<rparr>)"
  "connectedUsers moved_state ''a'' =
     Some \<lparr> u_roomId = ''R2'', u_username = JStr ''Alice'', u_role = Host \<rparr>"
  "rooms moved_state ''R1'' = rooms lobby_state ''R1''"
  "rooms moved_state ''R2'' = Some (newRoom 4 ''a'' ''R2'' (JStr ''Alice''))"
  by (simp_all add: moved_state_def alice_request_R2_def lobby_sockets lobby_rooms_other
      on_create_room_def alice_sock_def Let_def)

lemma reachable_moved: "reachable moved_state"
  unfolding moved_state_def by (rule reachable_step[OF reachable_lobby])

lemma reachable_gone: "reachable gone_state"
  unfolding gone_state_def by (rule reachable_step[OF reachable_moved])

lemma reachable_rejoin: "reachable rejoin_state"
  unfolding rejoin_state_def by (rule reachable_step[OF reachable_lobby])

lemma snd_disconnect: "snd (on_disconnect c sk s) = snd (leaveRoom c sk s)"
  by (simp add: on_disconnect_def split: prod.splits)

lemma leave_other_rooms:
  assumes "\<forall>u. connectedUsers s c = Some u \<longrightarrow> g \<noteq> u_roomId u"
  shows "rooms (fst (leaveRoom c sk s)) g = rooms s g
       \<and> (ToRoom g, m) \<notin> set (snd (leaveRoom c sk s))"
  using assms by (auto simp: leaveRoom_def Let_def split: option.splits if_splits)

text \<open>
  C4, as the code has it. In every reachable state a room has at most one participant
  with role host, and that participant is the room's creator. A room is created with
  exactly one. A step leaves the number of hosts of every room that exists before and
  after it unchanged, unless the step is a \<^verbatim>\<open>join-room\<close> request for the room sent by
  its creator's own socket. When a socket with role host leaves or disconnects, the room
  it is registered for in \<^verbatim>\<open>connectedUsers\<close> (the room it created last), if that room
  exists, is sent a \<^verbatim>\<open>room-ended\<close> notice and is deleted from the table in the same
  step, whoever is still in its directory. A leave or disconnect changes no other room
  and sends no \<^verbatim>\<open>room-ended\<close> notice to any other room: a room the socket created
  earlier stays in the table.
\<close>

theorem single_host:
  "(reachable s \<and> rooms s g = Some r
      \<longrightarrow> host_count r \<le> 1
          \<and> (\<forall>k p. (k, p) \<in> set (participants r) \<and> p_role p = Host \<longrightarrow> k = host r))
   \<and> (q_roomId d = Some g1 \<and> g1 \<noteq> [] \<and> js_truthy (q_username d) \<and> rooms s1 g1 = None
      \<longrightarrow> map_option host_count (rooms (fst (on_create_room now1 c1 sk1 d s1)) g1) = Some 1)
   \<and> (reachable s \<and> rooms s g = Some r \<and> rooms (fst (step now i s)) g = Some r'
        \<and> \<not> is_join (host r) g i
      \<longrightarrow> host_count r' = host_count r)
   \<and> (uncaught s2 = None \<and> sockets s2 c2 = Some sk2 \<and> s_role sk2 = Some Host
        \<and> connectedUsers s2 c2 = Some u \<and> rooms s2 (u_roomId u) = Some r2
      \<longrightarrow> step now2 (FromSocket c2 LeaveRoom) s2 =
            (s2\<lparr> rooms := (rooms s2)(u_roomId u := None),
                 connectedUsers := (connectedUsers s2)(c2 := None) \<rparr>,
             [(ToRoom (u_roomId u), MRoomEnded ''Host left the room'')])
          \<and> step now2 (FromSocket c2 Disconnect) s2 =
            (s2\<lparr> rooms := (rooms s2)(u_roomId u := None),
                 connectedUsers := (connectedUsers s2)(c2 := None),
                 sockets := (sockets s2)(c2 := None) \<rparr>,
             [(ToRoom (u_roomId u), MRoomEnded ''Host left the room'')]))
   \<and> ((\<forall>u. connectedUsers s3 c3 = Some u \<longrightarrow> g3 \<noteq> u_roomId u)
      \<longrightarrow> rooms (fst (step now3 (FromSocket c3 LeaveRoom) s3)) g3 = rooms s3 g3
          \<and> rooms (fst (step now3 (FromSocket c3 Disconnect) s3)) g3 = rooms s3 g3
          \<and> (ToRoom g3, MRoomEnded ''Host left the room'')
               \<notin> set (snd (step now3 (FromSocket c3 LeaveRoom) s3))
          \<and> (ToRoom g3, MRoomEnded ''Host left the room'')
               \<notin> set (snd (step now3 (FromSocket c3 Disconnect) s3)))"
proof (intro conjI impI)
  assume a: "reachable s \<and> rooms s g = Some r"
  then have ok: "room_ok r" using dir_inv_room[OF reachable_dir_inv] by blast
  then show "host_count r \<le> 1" by (rule room_ok_host_count)
  from ok show "\<forall>k p. (k, p) \<in> set (participants r) \<and> p_role p = Host \<longrightarrow> k = host r"
    unfolding room_ok_def by blast
next
  assume "q_roomId d = Some g1 \<and> g1 \<noteq> [] \<and> js_truthy (q_username d) \<and> rooms s1 g1 = None"
  then have "map_option participant_list (rooms (fst (on_create_room now1 c1 sk1 d s1)) g1) =
           Some [\<lparr> p_id = c1, p_username = q_username d, p_role = Host, p_ready = JBool True,
                    p_joinedAt = now1 \<rparr>]"
    by (simp add: created_room)
  then show "map_option host_count (rooms (fst (on_create_room now1 c1 sk1 d s1)) g1) = Some 1"
    by (auto simp: host_count_def)
next
  assume "reachable s \<and> rooms s g = Some r \<and> rooms (fst (step now i s)) g = Some r'
        \<and> \<not> is_join (host r) g i"
  then show "host_count r' = host_count r"
    using hc_step[OF reachable_dir_inv] by blast
next
  assume a: "uncaught s2 = None \<and> sockets s2 c2 = Some sk2 \<and> s_role sk2 = Some Host
        \<and> connectedUsers s2 c2 = Some u \<and> rooms s2 (u_roomId u) = Some r2"
  then have "leaveRoom c2 sk2 s2 =
           (s2\<lparr> rooms := (rooms s2)(u_roomId u := None),
               connectedUsers := (connectedUsers s2)(c2 := None) \<rparr>,
            [(ToRoom (u_roomId u), MRoomEnded ''Host left the room'')])"
    by (simp add: host_leaves)
  with a show "step now2 (FromSocket c2 LeaveRoom) s2 =
            (s2\<lparr> rooms := (rooms s2)(u_roomId u := None),
                 connectedUsers := (connectedUsers s2)(c2 := None) \<rparr>,
             [(ToRoom (u_roomId u), MRoomEnded ''Host left the room'')])"
    and "step now2 (FromSocket c2 Disconnect) s2 =
            (s2\<lparr> rooms := (rooms s2)(u_roomId u := None),
                 connectedUsers := (connectedUsers s2)(c2 := None),
                 sockets := (sockets s2)(c2 := None) \<rparr>,
             [(ToRoom (u_roomId u), MRoomEnded ''Host left the room'')])"
    by (simp_all add: on_disconnect_def)
next
  assume a: "\<forall>u. connectedUsers s3 c3 = Some u \<longrightarrow> g3 \<noteq> u_roomId u"
  have leave: "rooms (fst (handle now3 c3 sk LeaveRoom s3)) g3 = rooms s3 g3
      \<and> (ToRoom g3, MRoomEnded ''Host left the room'') \<notin> set (snd (handle now3 c3 sk LeaveRoom s3))
      \<and> rooms (fst (handle now3 c3 sk Disconnect s3)) g3 = rooms s3 g3
      \<and> (ToRoom g3, MRoomEnded ''Host left the room'') \<notin> set (snd (handle now3 c3 sk Disconnect s3))"
    for sk
    using leave_other_rooms[OF a, where sk = sk and m = "MRoomEnded ''Host left the room''"]
    by (simp add: fst_disconnect snd_disconnect)
  show "rooms (fst (step now3 (FromSocket c3 LeaveRoom) s3)) g3 = rooms s3 g3"
    and "rooms (fst (step now3 (FromSocket c3 Disconnect) s3)) g3 = rooms s3 g3"
    and "(ToRoom g3, MRoomEnded ''Host left the room'')
               \<notin> set (snd (step now3 (FromSocket c3 LeaveRoom) s3))"
    and "(ToRoom g3, MRoomEnded ''Host left the room'')
               \<notin> set (snd (step now3 (FromSocket c3 Disconnect) s3))"
    using leave by (auto simp: step_def split: option.splits)
qed

theorem single_host_witness:
  "reachable lobby_state
   \<and> map_option host_count (rooms lobby_state ''R1'') = Some 1
   \<and> map_option host_count (rooms left_state ''R1'') = Some 1
   \<and> map_option host_count
        (rooms (fst (on_create_room 5 ''b'' bob_sock request_R2 lobby_state)) ''R2'') = Some 1
   \<and> uncaught lobby_state = None
   \<and> rooms (fst (step 6 (FromSocket ''a'' LeaveRoom) lobby_state)) ''R1'' = None
   \<and> snd (step 6 (FromSocket ''a'' LeaveRoom) lobby_state)
       = [(ToRoom ''R1'', MRoomEnded ''Host left the room'')]
   \<and> rooms (fst (step 6 (FromSocket ''a'' Disconnect) lobby_state)) ''R1'' = None
   \<and> snd (step 6 (FromSocket ''a'' Disconnect) lobby_state)
       = [(ToRoom ''R1'', MRoomEnded ''Host left the room'')]
   \<and> map_option u_roomId (connectedUsers moved_state ''a'') = Some ''R2''
   \<and> rooms (fst (step 5 (FromSocket ''a'' Disconnect) moved_state)) ''R1''
       = rooms moved_state ''R1''"
proof -
  obtain r where r: "rooms lobby_state ''R1'' = Some r" "host r = ''a''"
    "host_count r = 1"
    by (simp add: lobby_room newRoom_def host_count_def participant_list_def)
  obtain r' where r': "rooms (fst (step 4 (FromSocket ''b'' LeaveRoom) lobby_state)) ''R1'' = Some r'"
    using left_room by (simp add: left_state_def)
  have none: "rooms lobby_state ''R2'' = None" by (simp add: lobby_rooms_other)
  have join: "\<not> is_join (host r) ''R1'' (FromSocket ''b'' LeaveRoom)" by simp
  have other: "\<forall>u. connectedUsers moved_state ''a'' = Some u \<longrightarrow> ''R1'' \<noteq> u_roomId u"
    by (simp add: moved_facts)
  note inst = single_host[where s = lobby_state and g = "''R1''" and r = r
      and i = "FromSocket ''b'' LeaveRoom" and now = 4 and r' = r'
      and d = request_R2 and ?g1.0 = "''R2''" and ?s1.0 = lobby_state and ?now1.0 = 5
      and ?c1.0 = "''b''" and ?sk1.0 = bob_sock
      and ?s2.0 = lobby_state and ?c2.0 = "''a''" and ?sk2.0 = alice_sock
      and u = "\<lparr> u_roomId = ''R1'', u_username = JStr ''Alice'', u_role = Host \<rparr>"
      and ?r2.0 = r and ?now2.0 = 6
      and ?s3.0 = moved_state and ?c3.0 = "''a''" and ?g3.0 = "''R1''" and ?now3.0 = 5]
  show ?thesis
    using inst reachable_lobby r r' none join other lobby_sockets(1) lobby_connectedUsers(1)
    by (simp add: request_R2_def left_state_def moved_facts)
qed

text \<open>
  C4 as stated fails, twice. \<^verbatim>\<open>join-room\<close> overwrites the directory entry of the
  sender: Alice, host of R1, sends \<^verbatim>\<open>join-room\<close> for R1; the room stays in the table and
  neither of its two participants has role host. And \<^verbatim>\<open>create-room\<close> registers the
  sender for the new room only: Alice, host of R1, creates R2 and disconnects; R2 is
  ended, and R1 stays in the table, with Alice's host entry and no notice, after its
  host's socket is gone.
\<close>

theorem single_host_counterexample:
  "reachable rejoin_state
   \<and> map_option (map p_role \<circ> participant_list) (rooms rejoin_state ''R1'')
       = Some [Participant, Participant]
   \<and> map_option host_count (rooms rejoin_state ''R1'') = Some 0
   \<and> reachable gone_state
   \<and> sockets gone_state ''a'' = None
   \<and> map_option (\<lambda>r. (host r, map p_role (participant_list r))) (rooms gone_state ''R1'')
       = Some (''a'', [Host, Participant])
   \<and> snd (step 5 (FromSocket ''a'' Disconnect) moved_state)
       = [(ToRoom ''R2'', MRoomEnded ''Host left the room'')]"
proof -
  have rejoined: "map_option (map p_role \<circ> participant_list) (rooms rejoin_state ''R1'')
       = Some [Participant, Participant]"
    "map_option host_count (rooms rejoin_state ''R1'') = Some 0"
    by (simp_all add: rejoin_state_def lobby_sockets lobby_room on_join_room_def
        lookup_room_def newRoom_def participant_list_def host_count_def Let_def)
  have gone: "sockets gone_state ''a'' = None"
    "map_option (\<lambda>r. (host r, map p_role (participant_list r))) (rooms gone_state ''R1'')
       = Some (''a'', [Host, Participant])"
    "snd (step 5 (FromSocket ''a'' Disconnect) moved_state)
       = [(ToRoom ''R2'', MRoomEnded ''Host left the room'')]"
    by (simp_all add: gone_state_def moved_facts lobby_room on_disconnect_def leaveRoom_def
        newRoom_def participant_list_def alice_sock_def Let_def)
  from reachable_rejoin reachable_gone rejoined gone show ?thesis by simp
qed

end
